theory Spec2Isabelle
  imports Complex_Main "HOL-Library.Word" "HOL-Library.Multiset"
begin

section \<open>Magnetic balltracking: the class MBT of balltracking/mballtrack.py\<close>

text \<open>
  The embedding follows \<^verbatim>\<open>src/balltracking/mballtrack.py\<close>. NumPy arrays are lists, the
  3 x N position array is a list of triples (one per ball slot), and a frame is a function
  from (row, column) to the pixel value. The float32 values of positions, images and
  surfaces are real numbers here: rounding, infinities and NaN positions are outside the
  model. Velocities have their own type with a NaN, because the code stores NaN in them.
  The age is the uint32 of the code. \<^verbatim>\<open>print\<close> is a list of printed lines, and
  \<^verbatim>\<open>sys.exit(1)\<close> is the error \<open>SystemExit\<close> carrying the lines printed so far.
\<close>

subsection \<open>Data model\<close>

type_synonym frame = "int \<Rightarrow> int \<Rightarrow> real"

type_synonym vec3 = "real \<times> real \<times> real"

datatype fval = NaN | Fin real

datatype out_line =
    Tracking_with nat
  | Frame_n nat
  | Msg string
  | Total_balls nat

datatype error = SystemExit "out_line list" int | ValueError | IndexError

record mbt =
  rs :: real
  ballspacing :: int
  intsteps :: nat
  nt :: nat
  noise_level :: real
  polarity :: int
  track_emergence :: bool
  verbose :: bool
  image_fr :: frame
  surface :: frame
  nx :: int
  ny :: int
  nxc :: int
  nyc :: int
  min_ds :: real
  nballs_max :: nat
  pos :: "vec3 list"
  vel :: "(fval \<times> fval \<times> fval) list"
  balls_age :: "32 word list"
  ballpos :: "vec3 list list"
  balls_age_t :: "32 word list list"
  bad_balls_mask :: "bool list"
  valid_balls_mask_t :: "bool list list"
  new_valid_balls_mask :: "bool list"
  unique_valid_balls :: "nat list"
  nballs :: nat
  nbadballs :: nat
  stdout :: "out_line list"

definition px :: "vec3 \<Rightarrow> real" where "px p = fst p"
definition py :: "vec3 \<Rightarrow> real" where "py p = fst (snd p)"
definition pz :: "vec3 \<Rightarrow> real" where "pz p = snd (snd p)"

text \<open>The sentinel written by \<^verbatim>\<open>self.pos[:, self.bad_balls_mask] = -1\<close> and by
  \<^verbatim>\<open>np.full([3, nballs_max], -1)\<close>.\<close>

definition sentinel :: vec3 where "sentinel = (-1, -1, -1)"

subsection \<open>NumPy helpers\<close>

text \<open>\<^verbatim>\<open>np.nonzero(mask)[0]\<close>: the indices of the true entries, ascending.\<close>

definition nonzero :: "bool list \<Rightarrow> nat list" where
  "nonzero m = filter (\<lambda>i. m ! i) [0..<length m]"

text \<open>\<^verbatim>\<open>a[idx]\<close> with an array of in-range non-negative indices.\<close>

definition take_idx :: "'a list \<Rightarrow> nat list \<Rightarrow> 'a list" where
  "take_idx a idx = map (\<lambda>i. a ! i) idx"

text \<open>\<^verbatim>\<open>a[mask]\<close> with a boolean mask of the length of \<open>a\<close>.\<close>

definition bool_idx :: "'a list \<Rightarrow> bool list \<Rightarrow> 'a list" where
  "bool_idx a m = take_idx a (nonzero m)"

text \<open>\<^verbatim>\<open>np.clip(a, a_min, a_max)\<close> is \<^verbatim>\<open>minimum(a_max, maximum(a, a_min))\<close>.\<close>

definition clip :: "real \<Rightarrow> real \<Rightarrow> real \<Rightarrow> real" where
  "clip a a_min a_max = min (max a a_min) a_max"

text \<open>\<^verbatim>\<open>np.uint32(a)\<close> on a float: the integer part, kept modulo \<open>2 ^ 32\<close>.\<close>

definition uint32 :: "real \<Rightarrow> 32 word" where
  "uint32 r = word_of_int \<lfloor>r\<rfloor>"

text \<open>\<^verbatim>\<open>a.astype(np.int32)\<close> on a float truncates toward zero.\<close>

definition astype_int32 :: "real \<Rightarrow> int" where
  "astype_int32 r = (if 0 \<le> r then \<lfloor>r\<rfloor> else \<lceil>r\<rceil>)"

text \<open>\<^verbatim>\<open>DTYPE = np.float32\<close>: the frames and the surfaces (\<^verbatim>\<open>astype(DTYPE)\<close> in
  \<^verbatim>\<open>load_data\<close> and \<^verbatim>\<open>prep_data\<close>) are arrays of single-precision numbers, and so is
  the result of every arithmetic operation on them. \<open>float32 x\<close> is the single-precision
  number nearest to \<open>x\<close>, ties going to the even significand (24 bits, numbers below
  \<open>2\<^sup>-\<^sup>1\<^sup>2\<^sup>6\<close> in steps of \<open>2\<^sup>-\<^sup>1\<^sup>4\<^sup>9\<close>); the overflow to infinity is left out, the
  pixel values staying far below \<open>2\<^sup>1\<^sup>2\<^sup>8\<close>. \<open>binade k x\<close> is the exponent \<open>e\<close> with
  \<open>2\<^sup>e \<le> x < 2\<^sup>e\<^sup>+\<^sup>1\<close>, searched in at most \<open>k\<close> steps, and \<open>rint\<close> is \<^verbatim>\<open>np.rint\<close>.\<close>

fun binade :: "nat \<Rightarrow> real \<Rightarrow> int" where
  "binade 0 x = 0"
| "binade (Suc k) x =
     (if 2 \<le> x then binade k (x / 2) + 1 else if x < 1 then binade k (2 * x) - 1 else 0)"

definition rint :: "real \<Rightarrow> int" where
  "rint y = (let f = \<lfloor>y\<rfloor>; d = y - of_int f
             in if d < 1 / 2 then f else if 1 / 2 < d then f + 1
                else if even f then f else f + 1)"

definition float32 :: "real \<Rightarrow> real" where
  "float32 x =
     (if x = 0 then 0
      else (let e = max (- 126) (binade 300 \<bar>x\<bar>) - 23
            in if 0 \<le> e then of_int (rint (x / 2 ^ nat e)) * 2 ^ nat e
               else of_int (rint (x * 2 ^ nat (- e))) / 2 ^ nat (- e)))"

text \<open>\<^verbatim>\<open>np.ravel_multi_index((rows, cols), (nr, nc))\<close> in its default mode raises
  ValueError on an index outside the dimensions.\<close>

definition ravel_multi_index ::
  "32 word list \<times> 32 word list \<Rightarrow> int \<times> int \<Rightarrow> error + int list" where
  "ravel_multi_index mi dims =
     (case mi of (rows, cols) \<Rightarrow> (case dims of (nr, nc) \<Rightarrow>
        if list_all (\<lambda>r. uint r < nr) rows \<and> list_all (\<lambda>c. uint c < nc) cols
        then Inr (map2 (\<lambda>r c. uint r * nc + uint c) rows cols)
        else Inl ValueError))"

subsection \<open>The coarse grid\<close>

text \<open>Line 99 of \<^verbatim>\<open>MBT.__init__\<close>:
  \<^verbatim>\<open>self.nxc_, self.nyc_ = np.ceil(self.nx / self.ballspacing).astype(int),
                         np.ceil(self.nx / self.ballspacing).astype(int)\<close>.
  Both dimensions are computed from \<open>nx\<close>.\<close>

definition coarse_grid_dims :: "int \<Rightarrow> int \<Rightarrow> int \<Rightarrow> int \<times> int" where
  "coarse_grid_dims nx' ny' spacing =
     (\<lceil>real_of_int nx' / real_of_int spacing\<rceil>, \<lceil>real_of_int nx' / real_of_int spacing\<rceil>)"

definition coarse_grid_pos ::
  "mbt \<Rightarrow> real list \<Rightarrow> real list \<Rightarrow> error + (32 word list \<times> 32 word list \<times> int list)" where
  "coarse_grid_pos s x y =
     (let xcoarse = map (\<lambda>a. uint32 (clip (of_int \<lfloor>a / of_int (ballspacing s)\<rfloor>) 0
                                        (of_int (nxc s) - 1))) x;
          ycoarse = map (\<lambda>a. uint32 (clip (of_int \<lfloor>a / of_int (ballspacing s)\<rfloor>) 0
                                        (of_int (nyc s) - 1))) y
      in case ravel_multi_index (ycoarse, xcoarse) (nyc s, nxc s) of
           Inl e \<Rightarrow> Inl e
         | Inr coarse_idx \<Rightarrow> Inr (xcoarse, ycoarse, coarse_idx))"

subsection \<open>Collaborators outside the sources\<close>

text \<open>
  The functions below are called by the class but are not defined in the sources at hand:
  NumPy's \<^verbatim>\<open>argsort\<close> (any sorting permutation; the default kind is not stable), the
  loader of frame \<open>n\<close>, the surface preparation, the extrema detector (built on
  scikit-image's \<^verbatim>\<open>peak_local_max\<close>), and two functions of the module
  \<^verbatim>\<open>balltracking/balltrack.py\<close>: \<^verbatim>\<open>put_balls_on_surface\<close> and
  \<^verbatim>\<open>integrate_motion\<close>. They are parameters of the model.

  Modelled from the spec: \<^verbatim>\<open>blt.integrate_motion\<close> is missing. By section 4.4 of the
  spec it computes one sub-step update of the velocity and of the position of the balls
  from the state and the surface it is given; the parameter returns the new position and
  velocity of each slot, and nothing else of the state changes.
\<close>

record externals =
  argsort :: "int list \<Rightarrow> nat list"
  load_data :: "nat \<Rightarrow> frame"
  prep_function :: "frame \<Rightarrow> frame"
  get_local_extrema :: "frame \<Rightarrow> int list \<times> int list"
  put_balls_on_surface :: "frame \<Rightarrow> real list \<Rightarrow> real list \<Rightarrow> real list"
  integrate_motion :: "mbt \<Rightarrow> frame \<Rightarrow> nat \<Rightarrow> vec3 \<times> (fval \<times> fval \<times> fval)"

text \<open>What \<^verbatim>\<open>np.argsort\<close> guarantees: a permutation of the indices that sorts the keys.\<close>

definition is_argsort :: "(int list \<Rightarrow> nat list) \<Rightarrow> bool" where
  "is_argsort f \<longleftrightarrow>
     (\<forall>ks. mset (f ks) = mset [0..<length ks] \<and> sorted (map (\<lambda>i. ks ! i) (f ks)))"

text \<open>
  Modelled from the spec: \<^verbatim>\<open>blt.get_off_edges_mask\<close> is missing. By section 4.5 of the
  spec a ball is off-edge when its footprint, the pixels within the radius \<open>rs\<close> of its
  centre, would index outside the frame bounds \<open>0 .. nx - 1\<close> and \<open>0 .. ny - 1\<close>.
\<close>

definition get_off_edges_mask :: "real \<Rightarrow> int \<Rightarrow> int \<Rightarrow> real list \<Rightarrow> real list \<Rightarrow> bool list" where
  "get_off_edges_mask r nx' ny' xs ys =
     map2 (\<lambda>x y. x - r < 0 \<or> x + r > of_int nx' - 1 \<or> y - r < 0 \<or> y + r > of_int ny' - 1)
       xs ys"


subsection \<open>\<^verbatim>\<open>MBT.__init__\<close>\<close>

definition MBT_init ::
  "externals \<Rightarrow> real \<Rightarrow> int \<Rightarrow> nat \<Rightarrow> nat \<Rightarrow> real \<Rightarrow> int \<Rightarrow> (real list \<times> real list) option
     \<Rightarrow> bool \<Rightarrow> bool \<Rightarrow> int \<times> int \<Rightarrow> error + mbt" where
  "MBT_init ext rs' ballspacing' intsteps' nt' noise_level' polarity' init_pos
      track_emergence' verbose' shape =
     (let image0 = load_data ext 0;
          surface0 = prep_function ext image0;
          nx0 = snd shape;
          ny0 = fst shape;
          cap = (case init_pos of None \<Rightarrow> nat ((nx0 * ny0) div 2)
                                | Some (ix, iy) \<Rightarrow> length ix);
          start = (case init_pos of
                     None \<Rightarrow> (case get_local_extrema ext image0 of
                                (ex, ey) \<Rightarrow> (map real_of_int ex, map real_of_int ey))
                   | Some (ix, iy) \<Rightarrow> (ix, iy));
          xstart = fst start;
          ystart = snd start;
          zstart = put_balls_on_surface ext surface0 xstart ystart;
          n0 = length xstart
      in if cap < n0 \<or> length ystart \<noteq> n0 \<or> length zstart \<noteq> n0 then Inl ValueError
         else Inr \<lparr>
           rs = rs', ballspacing = ballspacing', intsteps = intsteps', nt = nt',
           noise_level = noise_level', polarity = polarity',
           track_emergence = track_emergence', verbose = verbose',
           image_fr = image0, surface = surface0, nx = nx0, ny = ny0,
           nxc = fst (coarse_grid_dims nx0 ny0 ballspacing'),
           nyc = snd (coarse_grid_dims nx0 ny0 ballspacing'),
           min_ds = 4 * rs', nballs_max = cap,
           pos = zip xstart (zip ystart zstart) @ replicate (cap - n0) sentinel,
           vel = replicate cap (Fin 0, Fin 0, Fin 0),
           balls_age = replicate cap 1,
           ballpos = replicate nt' (replicate cap (0, 0, 0)),
           balls_age_t = replicate nt' (replicate cap 1),
           bad_balls_mask = replicate cap False,
           valid_balls_mask_t = replicate nt' (replicate cap True),
           new_valid_balls_mask = replicate n0 True @ replicate (cap - n0) False,
           unique_valid_balls = [0..<n0],
           nballs = n0, nbadballs = 0, stdout = [] \<rparr>)"

subsection \<open>\<^verbatim>\<open>MBT.set_bad_balls\<close>\<close>

text \<open>Python's \<^verbatim>\<open>any\<close> on a boolean array.\<close>

definition any_true :: "bool list \<Rightarrow> bool" where
  "any_true m = list_ex (\<lambda>b. b) m"

text \<open>\<^verbatim>\<open>np.lexsort([k1, k2])\<close>: an indirect stable sort, the last key \<open>k2\<close> being the
  primary one; it is a stable sort by \<open>k1\<close> followed by a stable sort by \<open>k2\<close>.\<close>

definition lexsort2 :: "32 word list \<Rightarrow> int list \<Rightarrow> nat list" where
  "lexsort2 k1 k2 = sort_key (\<lambda>i. k2 ! i) (sort_key (\<lambda>i. k1 ! i) [0..<length k2])"

text \<open>\<^verbatim>\<open>a[ks]\<close> with an integer index array: a negative index counts from the end, an
  index outside the array raises IndexError.\<close>

definition py_take :: "'a list \<Rightarrow> int list \<Rightarrow> error + 'a list" where
  "py_take a ks =
     (if list_all (\<lambda>k. - int (length a) \<le> k \<and> k < int (length a)) ks
      then Inr (map (\<lambda>k. a ! nat (if k < 0 then int (length a) + k else k)) ks)
      else Inl IndexError)"

text \<open>\<^verbatim>\<open>np.r_[np.flatnonzero(coarse_pos[1:] != coarse_pos[:-1]), -1]\<close>\<close>

definition run_ends :: "int list \<Rightarrow> int list" where
  "run_ends coarse_pos =
     map int (filter (\<lambda>i. coarse_pos ! (i + 1) \<noteq> coarse_pos ! i) [0..<length coarse_pos - 1])
       @ [- 1]"

text \<open>Lines 386 to 396: the balls to keep, from the slots, ages and cells of the balls
  that passed the checks.\<close>

definition decimation ::
  "(int list \<Rightarrow> nat list) \<Rightarrow> nat list \<Rightarrow> 32 word list \<Rightarrow> int list \<Rightarrow> error + nat list" where
  "decimation asort valid_balls_idx0 balls_age0 coarse_pos0 =
     (let sorted_balls = asort coarse_pos0;
          balls_age1 = take_idx balls_age0 sorted_balls;
          coarse_pos = take_idx coarse_pos0 sorted_balls;
          valid_balls_idx = take_idx valid_balls_idx0 sorted_balls;
          sidx = lexsort2 balls_age1 coarse_pos
      in case py_take sidx (run_ends coarse_pos) of
           Inl e \<Rightarrow> Inl e
         | Inr sel \<Rightarrow> Inr (take_idx valid_balls_idx sel))"

definition msg_polarity :: string where
  "msg_polarity = ''All the balls crossed to opposite polarity. Tracking interrupted.''"

definition msg_noise :: string where
  "msg_noise = ''All the balls are sitting on noise. Tracking interrupted.''"

definition msg_sinking :: string where
  "msg_sinking = ''All the balls have sunk below maximum allowed depth. Tracking interrupted.''"

text \<open>Lines 337 to 341: the slots that are not off-edge, and their integer coordinates.\<close>

definition on_frame_idx :: "mbt \<Rightarrow> nat list" where
  "on_frame_idx s =
     nonzero (map Not (get_off_edges_mask (rs s) (nx s) (ny s) (map px (pos s)) (map py (pos s))))"

definition pos2_of :: "mbt \<Rightarrow> nat list \<Rightarrow> (int \<times> int \<times> int) list" where
  "pos2_of s idx =
     map (\<lambda>p. (astype_int32 (px p), astype_int32 (py p), astype_int32 (pz p))) (take_idx (pos s) idx)"

definition same_polarity_mask :: "mbt \<Rightarrow> (int \<times> int \<times> int) list \<Rightarrow> bool list" where
  "same_polarity_mask s pos2 =
     map (\<lambda>(x, y, z). sgn (image_fr s y x) * of_int (polarity s) \<ge> 0) pos2"

definition noise_mask :: "mbt \<Rightarrow> (int \<times> int \<times> int) list \<Rightarrow> bool list" where
  "noise_mask s pos2 = map (\<lambda>(x, y, z). \<bar>image_fr s y x\<bar> > noise_level s) pos2"

definition unsunk_mask :: "mbt \<Rightarrow> (int \<times> int \<times> int) list \<Rightarrow> bool list" where
  "unsunk_mask s pos2 = map (\<lambda>(x, y, z). of_int z > surface s y x - min_ds s) pos2"

definition logical_and :: "bool list \<Rightarrow> bool list \<Rightarrow> bool list" where
  "logical_and a b = map2 (\<and>) a b"

text \<open>\<^verbatim>\<open>m = np.ones(n, dtype=bool); m[idx] = False\<close>\<close>

definition clear_at :: "nat \<Rightarrow> nat list \<Rightarrow> bool list" where
  "clear_at n idx = fold (\<lambda>i m. m[i := False]) idx (replicate n True)"

definition set_bad_balls :: "(int list \<Rightarrow> nat list) \<Rightarrow> bool \<Rightarrow> bool \<Rightarrow> bool \<Rightarrow> mbt \<Rightarrow> error + mbt" where
  "set_bad_balls asort check_polarity check_noise check_sinking s =
     (let valid_balls_idx = on_frame_idx s;
          pos2 = pos2_of s valid_balls_idx;
          mask0 = replicate (length valid_balls_idx) True;
          mask1 = (if check_polarity then logical_and mask0 (same_polarity_mask s pos2) else mask0)
      in if check_polarity \<and> \<not> any_true mask1
         then Inl (SystemExit (stdout s @ [Msg msg_polarity]) 1)
         else
          (let mask2 = (if check_noise then logical_and mask1 (noise_mask s pos2) else mask1)
           in if check_noise \<and> \<not> any_true mask2
              then Inl (SystemExit (stdout s @ [Msg msg_noise]) 1)
              else
               (let mask3 = (if check_sinking then logical_and mask2 (unsunk_mask s pos2) else mask2)
                in if check_sinking \<and> \<not> any_true mask3
                   then Inl (SystemExit (stdout s @ [Msg msg_sinking]) 1)
                   else
                    (let valid_balls_idx1 = bool_idx valid_balls_idx mask3;
                         xpos = map px (take_idx (pos s) valid_balls_idx1);
                         ypos = map py (take_idx (pos s) valid_balls_idx1);
                         balls_age0 = take_idx (balls_age s) valid_balls_idx1
                     in case coarse_grid_pos s xpos ypos of
                          Inl e \<Rightarrow> Inl e
                        | Inr (xc, yc, coarse_pos) \<Rightarrow>
                            (case decimation asort valid_balls_idx1 balls_age0 coarse_pos of
                               Inl e \<Rightarrow> Inl e
                             | Inr uvb \<Rightarrow>
                                 Inr (s\<lparr>unique_valid_balls := uvb,
                                        bad_balls_mask := clear_at (length (pos s)) uvb,
                                        new_valid_balls_mask :=
                                          map Not (clear_at (length (pos s)) uvb)\<rparr>))))))"

subsection \<open>\<^verbatim>\<open>MBT.populate_emergence\<close>\<close>

text \<open>\<^verbatim>\<open>a.view('int32')\<close> on the int64 coordinates returned by the extrema detector
  (NumPy's index type on a 64-bit platform, little-endian): every element becomes two,
  its low and its high 32 bits read as signed integers.\<close>

definition signed32 :: "int \<Rightarrow> int" where
  "signed32 k = (if k mod 2 ^ 32 < 2 ^ 31 then k mod 2 ^ 32 else k mod 2 ^ 32 - 2 ^ 32)"

definition view_int32 :: "int list \<Rightarrow> int list" where
  "view_int32 a = concat (map (\<lambda>v. [signed32 (v mod 2 ^ 64), signed32 ((v mod 2 ^ 64) div 2 ^ 32)]) a)"

text \<open>\<^verbatim>\<open>a[lo:hi] = vals\<close>: the slice is cut at the end of the array; the values must
  have the length of the slice, or length one (broadcast), else ValueError.\<close>

definition slice_assign :: "'a list \<Rightarrow> nat \<Rightarrow> nat \<Rightarrow> 'a list \<Rightarrow> error + 'a list" where
  "slice_assign a lo hi vals =
     (let lo' = min lo (length a);
          hi' = max lo' (min hi (length a));
          m = hi' - lo'
      in if length vals = m then Inr (take lo' a @ vals @ drop hi' a)
         else if length vals = 1 then Inr (take lo' a @ replicate m (hd vals) @ drop hi' a)
         else Inl ValueError)"

text \<open>\<^verbatim>\<open>a[lo:hi] = v\<close> with a scalar.\<close>

definition slice_fill :: "'a list \<Rightarrow> nat \<Rightarrow> nat \<Rightarrow> 'a \<Rightarrow> 'a list" where
  "slice_fill a lo hi v =
     (let lo' = min lo (length a);
          hi' = max lo' (min hi (length a))
      in take lo' a @ replicate (hi' - lo') v @ drop hi' a)"

text \<open>Lines 276 to 280: the smallest distance of a candidate to the valid balls.\<close>

definition distance_min :: "vec3 list \<Rightarrow> int \<Rightarrow> int \<Rightarrow> real" where
  "distance_min balls fx fy =
     min_list (map (\<lambda>b. sqrt ((of_int fx - px b)\<^sup>2 + (of_int fy - py b)\<^sup>2)) balls)"

definition populate_emergence :: "externals \<Rightarrow> mbt \<Rightarrow> error + mbt" where
  "populate_emergence ext s =
     (case get_local_extrema ext (image_fr s) of (flux_posx, flux_posy) \<Rightarrow>
        (let balls = bool_idx (pos s) (new_valid_balls_mask s)
         in if balls = [] then Inl ValueError
            else
             (let populate_flux_mask =
                    map2 (\<lambda>fx fy. distance_min balls fx fy > of_int (ballspacing s) + 1)
                      flux_posx flux_posy
              in if \<not> any_true populate_flux_mask then Inr s
                 else
                  (let newposx0 = view_int32 (bool_idx flux_posx populate_flux_mask);
                       newposy0 = view_int32 (bool_idx flux_posy populate_flux_mask);
                       within_edges_mask =
                         map Not (get_off_edges_mask (rs s) (nx s) (ny s)
                                    (map real_of_int newposx0) (map real_of_int newposy0));
                       newposx = map real_of_int (bool_idx newposx0 within_edges_mask);
                       newposy = map real_of_int (bool_idx newposy0 within_edges_mask);
                       newposz = put_balls_on_surface ext (surface s) newposx newposy;
                       lo = nballs s;
                       hi = nballs s + length newposx
                   in case slice_assign (map px (pos s)) lo hi newposx of
                        Inl e \<Rightarrow> Inl e
                      | Inr xs \<Rightarrow>
                     (case slice_assign (map py (pos s)) lo hi newposy of
                        Inl e \<Rightarrow> Inl e
                      | Inr ys \<Rightarrow>
                     (case slice_assign (map pz (pos s)) lo hi newposz of
                        Inl e \<Rightarrow> Inl e
                      | Inr zs \<Rightarrow>
                          Inr (s\<lparr>pos := zip xs (zip ys zs),
                                 vel := slice_fill (vel s) lo hi (Fin 0, Fin 0, Fin 0),
                                 bad_balls_mask := slice_fill (bad_balls_mask s) lo hi False,
                                 new_valid_balls_mask :=
                                   map Not (slice_fill (bad_balls_mask s) lo hi False),
                                 nballs := hi\<rparr>)))))))"

subsection \<open>\<^verbatim>\<open>MBT.track_all_frames\<close>\<close>

text \<open>Line 215, the surface of sub-step \<open>i\<close>:
  \<^verbatim>\<open>surface_i = (self.surface*(self.intsteps - i) + next_surface * i)/self.intsteps\<close>.
  The two products, the sum and the quotient are single-precision operations, each one
  rounded; the integer factors, far below \<open>2\<^sup>2\<^sup>4\<close>, are single-precision numbers
  themselves.\<close>

definition surface_i :: "frame \<Rightarrow> frame \<Rightarrow> nat \<Rightarrow> nat \<Rightarrow> frame" where
  "surface_i surf next_surface steps i =
     (\<lambda>r c. float32 (float32 (float32 (surf r c * real_of_int (int steps - int i))
                               + float32 (next_surface r c * real i))
                      / real steps))"

text \<open>Line 216, one call of the integrator.\<close>

definition integrate_step :: "externals \<Rightarrow> frame \<Rightarrow> mbt \<Rightarrow> mbt" where
  "integrate_step ext sf s =
     s\<lparr>pos := map (\<lambda>i. fst (integrate_motion ext s sf i)) [0..<length (pos s)],
       vel := map (\<lambda>i. snd (integrate_motion ext s sf i)) [0..<length (vel s)]\<rparr>"

text \<open>Lines 200 to 216, the loop over the sub-steps; \<open>step\<close> is the call made with
  the interpolated surface.\<close>

definition substeps :: "(frame \<Rightarrow> 'st \<Rightarrow> 'st) \<Rightarrow> frame \<Rightarrow> frame \<Rightarrow> nat \<Rightarrow> 'st \<Rightarrow> 'st" where
  "substeps step surf next_surface steps st =
     fold (\<lambda>i. step (surface_i surf next_surface steps i)) [0..<steps] st"

text \<open>Lines 220 to 228, after \<^verbatim>\<open>set_bad_balls\<close>.\<close>

definition flag_and_store :: "nat \<Rightarrow> mbt \<Rightarrow> mbt" where
  "flag_and_store n s =
     (let pos1 = map2 (\<lambda>p bad. if bad then sentinel else p) (pos s) (bad_balls_mask s);
          vel1 = map2 (\<lambda>v bad. if bad then (NaN, NaN, NaN) else v) (vel s) (bad_balls_mask s);
          age1 = map2 (\<lambda>a valid. if valid then a + 1 else a) (balls_age s) (new_valid_balls_mask s)
      in s\<lparr>nbadballs := length (filter (\<lambda>b. b) (bad_balls_mask s)),
           pos := pos1, vel := vel1, balls_age := age1,
           ballpos := (ballpos s)[n := pos1],
           balls_age_t := (balls_age_t s)[n := age1],
           valid_balls_mask_t := (valid_balls_mask_t s)[n := new_valid_balls_mask s]\<rparr>)"

text \<open>Lines 178 to 195: the frame \<open>n\<close> and its surface are loaded; the next surface is
  that of frame \<open>n + 1\<close>, or the current one on the last frame.\<close>

definition load_frame :: "externals \<Rightarrow> nat \<Rightarrow> mbt \<Rightarrow> mbt" where
  "load_frame ext n s =
     (let s0 = (if verbose s then s\<lparr>stdout := stdout s @ [Frame_n n]\<rparr> else s)
      in s0\<lparr>image_fr := load_data ext n, surface := prep_function ext (load_data ext n)\<rparr>)"

definition next_surface_of :: "externals \<Rightarrow> nat \<Rightarrow> mbt \<Rightarrow> frame" where
  "next_surface_of ext n s =
     (if int n < int (nt s) - 1 then prep_function ext (load_data ext (n + 1)) else surface s)"

text \<open>Lines 176 to 216: frame \<open>n\<close> up to the end of the integration.\<close>

definition before_checks :: "externals \<Rightarrow> nat \<Rightarrow> mbt \<Rightarrow> error + mbt" where
  "before_checks ext n s =
     (let s1 = load_frame ext n s;
          next_surface = next_surface_of ext n s1
      in case (if track_emergence s1 \<and> n > 0 then populate_emergence ext s1 else Inr s1) of
           Inl e \<Rightarrow> Inl e
         | Inr s2 \<Rightarrow>
             Inr (substeps (integrate_step ext) (surface s2) next_surface (intsteps s2) s2))"

text \<open>Lines 176 to 228, the body of the loop for frame \<open>n\<close>.\<close>

definition frame_step :: "externals \<Rightarrow> nat \<Rightarrow> mbt \<Rightarrow> error + mbt" where
  "frame_step ext n s =
     (case before_checks ext n s of
        Inl e \<Rightarrow> Inl e
      | Inr s2 \<Rightarrow>
          (case set_bad_balls (argsort ext) True True True s2 of
             Inl e \<Rightarrow> Inl e
           | Inr s3 \<Rightarrow> Inr (flag_and_store n s3)))"

fun run_frames :: "externals \<Rightarrow> nat list \<Rightarrow> mbt \<Rightarrow> error + mbt" where
  "run_frames ext [] s = Inr s"
| "run_frames ext (n # ns) s =
     (case frame_step ext n s of Inl e \<Rightarrow> Inl e | Inr s' \<Rightarrow> run_frames ext ns s')"

definition track_all_frames :: "externals \<Rightarrow> mbt \<Rightarrow> error + mbt" where
  "track_all_frames ext s =
     (let s0 = (if verbose s then s\<lparr>stdout := stdout s @ [Tracking_with (nballs s)]\<rparr> else s)
      in case run_frames ext [0..<nt s0] s0 of
           Inl e \<Rightarrow> Inl e
         | Inr s1 \<Rightarrow>
             (let s2 = (if verbose s1 then s1\<lparr>stdout := stdout s1 @ [Total_balls (nballs s1)]\<rparr>
                        else s1)
              in Inr (s2\<lparr>ballpos := map (take (nballs s2)) (ballpos s2),
                         balls_age_t := map (take (nballs s2)) (balls_age_t s2),
                         valid_balls_mask_t := map (take (nballs s2)) (valid_balls_mask_t s2)\<rparr>)))"

subsection \<open>Derived notions used to state the properties\<close>

text \<open>A stable \<^verbatim>\<open>argsort\<close> (what NumPy's insertion sort does on short arrays).\<close>

definition stable_argsort :: "int list \<Rightarrow> nat list" where
  "stable_argsort ks = sort_key (\<lambda>i. ks ! i) [0..<length ks]"

text \<open>An \<^verbatim>\<open>argsort\<close> that is not stable: it sorts the even indices followed by the odd
  ones. NumPy's default kind gives no order among equal keys.\<close>

definition unstable_argsort :: "int list \<Rightarrow> nat list" where
  "unstable_argsort ks =
     sort_key (\<lambda>i. ks ! i) (filter even [0..<length ks] @ filter odd [0..<length ks])"

text \<open>The coarse-grid cell of a ball, as \<open>coarse_grid_pos\<close> computes it for the one position.\<close>

definition cell_of :: "mbt \<Rightarrow> vec3 \<Rightarrow> error + (32 word list \<times> 32 word list \<times> int list)" where
  "cell_of s p = coarse_grid_pos s [px p] [py p]"

text \<open>The slots that pass the off-edge, polarity, noise and sinking checks.\<close>

definition survivors :: "mbt \<Rightarrow> nat list" where
  "survivors s =
     (let idx = on_frame_idx s; pos2 = pos2_of s idx
      in bool_idx idx
           (logical_and (logical_and (logical_and (replicate (length idx) True)
              (same_polarity_mask s pos2)) (noise_mask s pos2)) (unsunk_mask s pos2)))"

text \<open>Lines 387 to 390: the slots that passed the checks, in the order in which
  \<^verbatim>\<open>np.argsort\<close> of their cell indices puts them; and the place of an element in a list.\<close>

definition sort_order :: "(int list \<Rightarrow> nat list) \<Rightarrow> mbt \<Rightarrow> nat list" where
  "sort_order asort s =
     (case coarse_grid_pos s (map px (take_idx (pos s) (survivors s)))
             (map py (take_idx (pos s) (survivors s))) of
        Inl e \<Rightarrow> []
      | Inr (xc, yc, coarse_pos) \<Rightarrow> take_idx (survivors s) (asort coarse_pos))"

definition index_of :: "'a list \<Rightarrow> 'a \<Rightarrow> nat" where
  "index_of xs x = length (takeWhile (\<lambda>y. y \<noteq> x) xs)"






text \<open>The array shapes fixed by \<^verbatim>\<open>MBT.__init__\<close>.\<close>

definition shapes_ok :: "mbt \<Rightarrow> bool" where
  "shapes_ok s \<longleftrightarrow>
     length (pos s) = nballs_max s \<and> length (vel s) = nballs_max s \<and>
     length (balls_age s) = nballs_max s \<and> length (bad_balls_mask s) = nballs_max s \<and>
     length (new_valid_balls_mask s) = nballs_max s \<and>
     length (ballpos s) = nt s \<and> length (balls_age_t s) = nt s \<and>
     length (valid_balls_mask_t s) = nt s"

text \<open>The last element of every run of equal keys.\<close>

fun run_lasts :: "('a \<Rightarrow> 'k) \<Rightarrow> 'a list \<Rightarrow> 'a list" where
  "run_lasts f [] = []"
| "run_lasts f [x] = [x]"
| "run_lasts f (x # y # zs) = (if f y \<noteq> f x then x # run_lasts f (y # zs) else run_lasts f (y # zs))"

text \<open>The positions, in the arrays handed to the decimation, of the balls it keeps.\<close>

definition kept_pos :: "(int list \<Rightarrow> nat list) \<Rightarrow> 32 word list \<Rightarrow> int list \<Rightarrow> nat list" where
  "kept_pos asort ages0 cp0 =
     run_lasts (\<lambda>q. cp0 ! q) (sort_key (\<lambda>q. cp0 ! q) (sort_key (\<lambda>q. ages0 ! q) (asort cp0)))"

text \<open>State \<open>t\<close> differs from \<open>s\<close> in the positions and velocities only.\<close>

definition same_but_motion :: "mbt \<Rightarrow> mbt \<Rightarrow> bool" where
  "same_but_motion s t \<longleftrightarrow>
     t\<lparr>pos := pos s, vel := vel s\<rparr> = s \<and> length (pos t) = length (pos s) \<and>
     length (vel t) = length (vel s)"

subsection \<open>Concrete inputs\<close>

text \<open>Collaborators for the concrete runs: a stable \<^verbatim>\<open>argsort\<close>, a constant frame of
  value 100, a flat surface, no extrema, balls put at height 0, and an integrator that
  leaves every ball where it is.\<close>

definition still_ext :: externals where
  "still_ext = \<lparr> argsort = stable_argsort, load_data = (\<lambda>n r c. 100),
     prep_function = (\<lambda>img r c. 0), get_local_extrema = (\<lambda>img. ([], [])),
     put_balls_on_surface = (\<lambda>sf xs ys. map (\<lambda>x. 0) xs),
     integrate_motion = (\<lambda>s sf i. (pos s ! i, vel s ! i)) \<rparr>"

text \<open>Three balls on a 40 x 40 frame with a spacing of 10: slots 0 and 1 share the cell
  (1, 1), with ages 3 and 5; slot 2 is alone in the cell (2, 2).\<close>

definition crowded :: mbt where
  "crowded = (projr (MBT_init still_ext 2 10 1 1 20 1 (Some ([12, 15, 25], [12, 14, 25]))
                 False False (40, 40)))\<lparr>balls_age := [3, 5, 1]\<rparr>"

text \<open>The state after frame 0 of the crowded run.\<close>

definition crowded_after :: mbt where
  "crowded_after = flag_and_store 0 (crowded\<lparr>unique_valid_balls := [1, 2],
       bad_balls_mask := [True, False, False], new_valid_balls_mask := [False, True, True]\<rparr>)"

text \<open>Three balls of age 1 in the cell (1, 1).\<close>

definition tied :: mbt where
  "tied = projr (MBT_init still_ext 2 10 1 1 20 1 (Some ([12, 13, 14], [12, 12, 12]))
                 False False (40, 40))"





text \<open>A frame that is negative in the columns 4 and 25 and positive elsewhere, with a
  ball at \<open>x = 3.7\<close> and a ball at \<open>x = 25.5\<close>.\<close>

definition stripe_ext :: externals where
  "stripe_ext = \<lparr> argsort = stable_argsort,
     load_data = (\<lambda>n r c. if c = 4 \<or> c = 25 then - 100 else 100),
     prep_function = (\<lambda>img r c. 0), get_local_extrema = (\<lambda>img. ([], [])),
     put_balls_on_surface = (\<lambda>sf xs ys. map (\<lambda>x. 0) xs),
     integrate_motion = (\<lambda>s sf i. (pos s ! i, vel s ! i)) \<rparr>"

definition stripes :: mbt where
  "stripes = projr (MBT_init stripe_ext 2 10 1 1 20 1 (Some ([37 / 10, 51 / 2], [3, 25]))
                 False False (40, 40))"

text \<open>Two runs of two frames with one ball at (12, 12), silent (\<^verbatim>\<open>verbose=False\<close>): in
  the first the frame is positive at frame 0 and negative at frame 1, in the second it is
  negative from frame 0 on. \<open>solo img\<close> is the state \<^verbatim>\<open>MBT.__init__\<close> builds when the
  first frame is \<open>img\<close>, and \<open>solo1\<close> the state of the first run after frame 0.\<close>

definition flip_ext :: externals where
  "flip_ext = \<lparr> argsort = stable_argsort,
     load_data = (\<lambda>n r c. if n = 0 then 100 else - 100),
     prep_function = (\<lambda>img r c. 0), get_local_extrema = (\<lambda>img. ([], [])),
     put_balls_on_surface = (\<lambda>sf xs ys. map (\<lambda>x. 0) xs),
     integrate_motion = (\<lambda>s sf i. (pos s ! i, vel s ! i)) \<rparr>"

definition neg_ext :: externals where
  "neg_ext = \<lparr> argsort = stable_argsort,
     load_data = (\<lambda>n r c. - 100),
     prep_function = (\<lambda>img r c. 0), get_local_extrema = (\<lambda>img. ([], [])),
     put_balls_on_surface = (\<lambda>sf xs ys. map (\<lambda>x. 0) xs),
     integrate_motion = (\<lambda>s sf i. (pos s ! i, vel s ! i)) \<rparr>"

definition solo :: "frame \<Rightarrow> mbt" where
  "solo img = \<lparr>
           rs = 2, ballspacing = 10, intsteps = 1, nt = 2,
           noise_level = 20, polarity = 1,
           track_emergence = False, verbose = False,
           image_fr = img, surface = (\<lambda>r c. 0), nx = 40, ny = 40,
           nxc = 4, nyc = 4,
           min_ds = 8, nballs_max = 1,
           pos = [(12, 12, 0)],
           vel = [(Fin 0, Fin 0, Fin 0)],
           balls_age = [1],
           ballpos = [[(0, 0, 0)], [(0, 0, 0)]],
           balls_age_t = [[1], [1]],
           bad_balls_mask = [False],
           valid_balls_mask_t = [[True], [True]],
           new_valid_balls_mask = [True],
           unique_valid_balls = [0],
           nballs = 1, nbadballs = 0, stdout = [] \<rparr>"

definition solo1 :: mbt where
  "solo1 = flag_and_store 0 ((solo (\<lambda>r c. 100))\<lparr>unique_valid_balls := [0],
             bad_balls_mask := [False], new_valid_balls_mask := [True]\<rparr>)"

text \<open>A frame of value 10, below the noise level of 20, and a surface of height 50, far
  above the ball at height 0; \<open>sunk\<close> is the one-ball state once that surface is loaded.\<close>

definition dim_ext :: externals where
  "dim_ext = \<lparr> argsort = stable_argsort,
     load_data = (\<lambda>n r c. 10),
     prep_function = (\<lambda>img r c. 0), get_local_extrema = (\<lambda>img. ([], [])),
     put_balls_on_surface = (\<lambda>sf xs ys. map (\<lambda>x. 0) xs),
     integrate_motion = (\<lambda>s sf i. (pos s ! i, vel s ! i)) \<rparr>"

definition deep_ext :: externals where
  "deep_ext = \<lparr> argsort = stable_argsort,
     load_data = (\<lambda>n r c. 100),
     prep_function = (\<lambda>img r c. 50), get_local_extrema = (\<lambda>img. ([], [])),
     put_balls_on_surface = (\<lambda>sf xs ys. map (\<lambda>x. 0) xs),
     integrate_motion = (\<lambda>s sf i. (pos s ! i, vel s ! i)) \<rparr>"

definition sunk :: mbt where
  "sunk = (solo (\<lambda>r c. 100))\<lparr>surface := (\<lambda>r c. 50)\<rparr>"






text \<open>A run of two frames with two balls in the cell (1, 1): \<open>pair0\<close> is the state after
  \<^verbatim>\<open>MBT.__init__\<close>, \<open>pair1\<close> and \<open>pair2\<close> are the states after the frames 0 and 1.\<close>

definition pair0 :: mbt where
  "pair0 = \<lparr>
           rs = 2, ballspacing = 10, intsteps = 1, nt = 2,
           noise_level = 20, polarity = 1,
           track_emergence = False, verbose = False,
           image_fr = (\<lambda>r c. 100), surface = (\<lambda>r c. 0), nx = 40, ny = 40,
           nxc = 4, nyc = 4,
           min_ds = 8, nballs_max = 2,
           pos = [(12, 12, 0), (15, 14, 0)],
           vel = [(Fin 0, Fin 0, Fin 0), (Fin 0, Fin 0, Fin 0)],
           balls_age = [1, 1],
           ballpos = [[(0, 0, 0), (0, 0, 0)], [(0, 0, 0), (0, 0, 0)]],
           balls_age_t = [[1, 1], [1, 1]],
           bad_balls_mask = [False, False],
           valid_balls_mask_t = [[True, True], [True, True]],
           new_valid_balls_mask = [True, True],
           unique_valid_balls = [0, 1],
           nballs = 2, nbadballs = 0, stdout = [] \<rparr>"

definition pair1 :: mbt where
  "pair1 = flag_and_store 0 (pair0\<lparr>unique_valid_balls := [1],
       bad_balls_mask := [True, False], new_valid_balls_mask := [False, True]\<rparr>)"

definition pair2 :: mbt where
  "pair2 = flag_and_store 1 (pair1\<lparr>unique_valid_balls := [1],
       bad_balls_mask := [True, False], new_valid_balls_mask := [False, True]\<rparr>)"

section \<open>Properties\<close>

subsection \<open>Sorting and runs\<close>

lemma run_lasts_subset: "set (run_lasts f xs) \<subseteq> set xs"
  by (induction f xs rule: run_lasts.induct) auto

lemma run_lasts_keys: "f ` set (run_lasts f xs) = f ` set xs"
  by (induction f xs rule: run_lasts.induct) auto

lemma run_lasts_distinct:
  fixes f :: "'a \<Rightarrow> 'k::linorder"
  shows "sorted (map f xs) \<Longrightarrow> distinct (map f (run_lasts f xs))"
proof (induction f xs rule: run_lasts.induct)
  case (3 f x y zs)
  have "f x \<notin> f ` set (run_lasts f (y # zs))" if "f y \<noteq> f x"
  proof
    assume "f x \<in> f ` set (run_lasts f (y # zs))"
    then have "f x \<in> f ` set (y # zs)" using run_lasts_subset[of f "y # zs"] by blast
    then obtain w where w: "w \<in> set (y # zs)" "f w = f x" by (metis imageE)
    from 3(3) have "f x \<le> f y" "\<forall>v\<in>set (y # zs). f y \<le> f v" by auto
    with w that show False by fastforce
  qed
  with 3 show ?case by auto
qed simp_all

lemma run_lasts_last:
  fixes f :: "'a \<Rightarrow> 'k::linorder"
  shows "sorted (map f xs) \<Longrightarrow> x \<in> set (run_lasts f xs) \<Longrightarrow> x = last (filter (\<lambda>y. f y = f x) xs)"
proof (induction f xs rule: run_lasts.induct)
  case (3 f a b zs)
  from 3(3) have ab: "f a \<le> f b" and bz: "\<forall>v\<in>set (b # zs). f b \<le> f v" and srt: "sorted (map f (b # zs))"
    by auto
  show ?case
  proof (cases "x \<in> set (run_lasts f (b # zs))")
    case True
    then have xin: "x \<in> set (b # zs)" using run_lasts_subset[of f "b # zs"] by blast
    have ih: "x = last (filter (\<lambda>y. f y = f x) (b # zs))"
      using 3(1)[OF _ srt True] 3(2)[OF _ srt True] by (cases "f b = f a") auto
    have ne: "filter (\<lambda>y. f y = f x) (b # zs) \<noteq> []"
      using xin by (metis (mono_tags, lifting) empty_filter_conv)
    define r where "r = b # zs"
    have "filter (\<lambda>y. f y = f x) (a # r) =
            (if f a = f x then a # filter (\<lambda>y. f y = f x) r else filter (\<lambda>y. f y = f x) r)"
      by simp
    moreover have "x = last (filter (\<lambda>y. f y = f x) r)" "filter (\<lambda>y. f y = f x) r \<noteq> []"
      using ih ne by (simp_all add: r_def)
    ultimately have "x = last (filter (\<lambda>y. f y = f x) (a # r))" by simp
    then show ?thesis by (simp only: r_def)
  next
    case False
    with 3(4) have xa: "x = a" and neq: "f b \<noteq> f a" by (auto split: if_splits)
    have "filter (\<lambda>y. f y = f a) (b # zs) = []"
      using ab bz neq by (auto simp: filter_empty_conv)
    then show ?thesis using xa by simp
  qed
qed simp_all

lemma insort_key_map_comm:
  "map h (insort_key (g \<circ> h) y ys) = insort_key g (h y) (map h ys)"
  by (induction ys) simp_all

lemma sort_key_map_comm: "map h (sort_key (g \<circ> h) ys) = sort_key g (map h ys)"
proof (induction ys)
  case (Cons y ys)
  have "map h (sort_key (g \<circ> h) (y # ys)) = map h (insort_key (g \<circ> h) y (sort_key (g \<circ> h) ys))"
    by simp
  also have "\<dots> = insort_key g (h y) (map h (sort_key (g \<circ> h) ys))"
    by (rule insort_key_map_comm)
  also have "\<dots> = insort_key g (h y) (sort_key g (map h ys))"
    by (simp only: Cons)
  finally show ?case by (simp only: list.map sort_key_simps)
qed simp

lemma insort_key_cong_set:
  "f y = g y \<Longrightarrow> (\<forall>x\<in>set xs. f x = g x) \<Longrightarrow> insort_key f y xs = insort_key g y xs"
  by (induction xs) simp_all

lemma sort_key_cong_set: "(\<forall>x\<in>set xs. f x = g x) \<Longrightarrow> sort_key f xs = sort_key g xs"
proof (induction xs)
  case (Cons x xs)
  then have ih: "sort_key f xs = sort_key g xs" and fx: "f x = g x"
    and all: "\<forall>z\<in>set (sort_key g xs). f z = g z" by simp_all
  show ?case using insort_key_cong_set[OF fx all] ih by simp
qed simp

lemma ends_run_lasts:
  "xs \<noteq> [] \<Longrightarrow>
   map (\<lambda>i. xs ! i) (filter (\<lambda>i. map f xs ! (i + 1) \<noteq> map f xs ! i) [0..<length xs - 1]) @ [last xs]
     = run_lasts f xs"
proof (induction f xs rule: run_lasts.induct)
  case (3 f x y zs)
  define r where "r = y # zs"
  have rne: "r \<noteq> []" and lr: "length r - 1 = length zs" by (simp_all add: r_def)
  have upt: "[0..<length (x # r) - 1] = 0 # map Suc [0..<length r - 1]"
    using rne by (cases r) (simp_all add: upt_conv_Cons map_Suc_upt del: upt_Suc)
  have tl: "map (\<lambda>i. (x # r) ! i) (filter (\<lambda>i. map f (x # r) ! (i + 1) \<noteq> map f (x # r) ! i) (map Suc [0..<length r - 1]))
       = map (\<lambda>i. r ! i) (filter (\<lambda>i. map f r ! (i + 1) \<noteq> map f r ! i) [0..<length r - 1])"
    by (simp add: filter_map comp_def)
  have ih: "map (\<lambda>i. r ! i) (filter (\<lambda>i. map f r ! (i + 1) \<noteq> map f r ! i) [0..<length r - 1]) @ [last r]
     = run_lasts f r"
    using 3 by (cases "f y = f x") (simp_all add: r_def)
  have hd0: "(map f (x # r) ! (0 + 1) \<noteq> map f (x # r) ! 0) = (f y \<noteq> f x)"
    by (simp add: r_def)
  have "map (\<lambda>i. (x # r) ! i) (filter (\<lambda>i. map f (x # r) ! (i + 1) \<noteq> map f (x # r) ! i) [0..<length (x # r) - 1]) @ [last (x # r)]
       = (if f y \<noteq> f x then [x] else []) @ run_lasts f r"
    unfolding upt filter.simps(2) hd0 using tl ih rne by (simp del: upt_Suc)
  then show ?case by (simp add: r_def)
qed simp_all

lemma sorted_le_last:
  fixes f :: "'a \<Rightarrow> 'k::linorder"
  shows "sorted (map f xs) \<Longrightarrow> x \<in> set xs \<Longrightarrow> f x \<le> f (last xs)"
  by (induction xs) (auto split: if_splits)

lemma py_take_ends:
  assumes "a \<noteq> []" "\<forall>i\<in>set idxs. i < length a"
  shows "py_take a (map int idxs @ [- 1]) = Inr (map (\<lambda>i. a ! i) idxs @ [last a])"
proof -
  have rng: "list_all (\<lambda>k. - int (length a) \<le> k \<and> k < int (length a)) (map int idxs @ [- 1])"
    using assms by (cases a) (auto simp: list_all_iff)
  have neg: "map (\<lambda>k. a ! nat (if k < 0 then int (length a) + k else k)) (map int idxs) = map (\<lambda>i. a ! i) idxs"
    by (simp add: comp_def)
  have lst: "a ! nat (int (length a) + - 1) = last a"
    using assms(1) by (simp add: last_conv_nth nat_diff_distrib')
  show ?thesis unfolding py_take_def using rng neg lst by simp
qed

lemma py_take_empty: "py_take [] (ks @ [- 1]) = Inl IndexError"
  by (simp add: py_take_def)

lemma is_argsortD:
  assumes "is_argsort f"
  shows "mset (f ks) = mset [0..<length ks]" "sorted (map (\<lambda>i. ks ! i) (f ks))"
    "length (f ks) = length ks" "set (f ks) = {0..<length ks}" "distinct (f ks)"
proof -
  show m: "mset (f ks) = mset [0..<length ks]" and "sorted (map (\<lambda>i. ks ! i) (f ks))"
    using assms by (simp_all add: is_argsort_def)
  show "length (f ks) = length ks" using mset_eq_length[OF m] by simp
  show "set (f ks) = {0..<length ks}" using mset_eq_setD[OF m] by simp
  show "distinct (f ks)" using mset_eq_imp_distinct_iff[OF m] by simp
qed

lemma decimation_kept_pos:
  assumes asort: "is_argsort asort"
    and dec: "decimation asort vs ages0 cp0 = Inr uvb"
  shows "cp0 \<noteq> []" and "uvb = map (\<lambda>q. vs ! q) (kept_pos asort ages0 cp0)"
proof -
  define p where "p = asort cp0"
  define n where "n = length cp0"
  have lenp: "length p = n" and setp: "set p = {0..<n}" and msp: "mset p = mset [0..<n]"
    and srt: "sorted (map (\<lambda>i. cp0 ! i) p)"
    using is_argsortD[OF asort, of cp0] by (simp_all add: p_def n_def)
  define cp where "cp = take_idx cp0 p"
  define ages1 where "ages1 = take_idx ages0 p"
  define sidx where "sidx = lexsort2 ages1 cp"
  define W where "W = sort_key (\<lambda>q. cp0 ! q) (sort_key (\<lambda>q. ages0 ! q) p)"
  have lencp: "length cp = n" by (simp add: cp_def take_idx_def lenp)
  have cp_nth: "\<forall>i\<in>set [0..<n]. cp ! i = ((\<lambda>q. cp0 ! q) \<circ> (\<lambda>i. p ! i)) i"
    by (simp add: cp_def take_idx_def lenp)
  have ag_nth: "\<forall>i\<in>set [0..<n]. ages1 ! i = ((\<lambda>q. ages0 ! q) \<circ> (\<lambda>i. p ! i)) i"
    by (simp add: ages1_def take_idx_def lenp)
  have inner: "sort_key (\<lambda>i. ages1 ! i) [0..<n] = sort_key ((\<lambda>q. ages0 ! q) \<circ> (\<lambda>i. p ! i)) [0..<n]"
    by (rule sort_key_cong_set) (use ag_nth in blast)
  have outer: "sidx = sort_key ((\<lambda>q. cp0 ! q) \<circ> (\<lambda>i. p ! i)) (sort_key ((\<lambda>q. ages0 ! q) \<circ> (\<lambda>i. p ! i)) [0..<n])"
    unfolding sidx_def lexsort2_def lencp inner
    by (rule sort_key_cong_set) (use cp_nth in simp)
  have pmap: "map (\<lambda>i. p ! i) [0..<n] = p" using map_nth[of p] by (simp only: lenp)
  have Wmap: "map (\<lambda>i. p ! i) sidx = W"
    unfolding outer W_def by (simp only: sort_key_map_comm pmap)
  have lensidx: "length sidx = n" by (simp add: outer)
  have setsidx: "set sidx = {0..<n}" by (simp add: outer)
  have lenW: "length W = n" by (simp add: W_def lenp)
  have msW: "mset W = mset p" by (simp add: W_def)
  have cpW: "map (\<lambda>q. cp0 ! q) W = cp"
  proof -
    have "sorted (map (\<lambda>q. cp0 ! q) W)" unfolding W_def by (rule sorted_sort_key)
    moreover have "mset (map (\<lambda>q. cp0 ! q) W) = mset cp"
      by (simp add: msW cp_def take_idx_def)
    ultimately have "sort cp = map (\<lambda>q. cp0 ! q) W" by (rule properties_for_sort[rotated])
    moreover have "sort cp = cp" using srt by (simp add: cp_def take_idx_def sorted_sort_id)
    ultimately show ?thesis by simp
  qed
  have decdef: "decimation asort vs ages0 cp0 =
      (case py_take sidx (run_ends cp) of Inl e \<Rightarrow> Inl e
        | Inr sel \<Rightarrow> Inr (take_idx (take_idx vs p) sel))"
    unfolding decimation_def Let_def p_def cp_def ages1_def sidx_def ..
  show ne: "cp0 \<noteq> []"
  proof
    assume "cp0 = []"
    then have "sidx = []" using lensidx by (simp add: n_def)
    then show False using dec decdef by (simp add: run_ends_def py_take_empty)
  qed
  then have npos: "0 < n" by (simp add: n_def)
  have sne: "sidx \<noteq> []" using lensidx npos by auto
  have Wne: "W \<noteq> []" using lenW npos by auto
  define idxs where "idxs = filter (\<lambda>i. cp ! (i + 1) \<noteq> cp ! i) [0..<length cp - 1]"
  have idxs_lt: "\<forall>i\<in>set idxs. i < length sidx" by (auto simp: idxs_def lensidx lencp)
  have take: "py_take sidx (run_ends cp) = Inr (map (\<lambda>i. sidx ! i) idxs @ [last sidx])"
    unfolding run_ends_def idxs_def[symmetric] by (rule py_take_ends[OF sne idxs_lt])
  have uvb: "uvb = take_idx (take_idx vs p) (map (\<lambda>i. sidx ! i) idxs @ [last sidx])"
    using dec decdef take by simp
  have "set (map (\<lambda>i. sidx ! i) idxs @ [last sidx]) \<subseteq> set sidx"
    using idxs_lt sne by auto
  then have sel_lt: "\<forall>k\<in>set (map (\<lambda>i. sidx ! i) idxs @ [last sidx]). k < length p"
    unfolding setsidx lenp by auto
  have step1: "uvb = map (\<lambda>q. vs ! q) (map (\<lambda>i. p ! i) (map (\<lambda>i. sidx ! i) idxs @ [last sidx]))"
    unfolding uvb take_idx_def using sel_lt by (simp add: comp_def)
  have step2: "map (\<lambda>i. p ! i) (map (\<lambda>i. sidx ! i) idxs @ [last sidx]) = map (\<lambda>i. W ! i) idxs @ [last W]"
  proof -
    have "map (\<lambda>i. p ! i) (map (\<lambda>i. sidx ! i) idxs) = map (\<lambda>i. W ! i) idxs"
      using idxs_lt by (simp add: Wmap[symmetric] comp_def)
    moreover have "p ! last sidx = last W"
      using sne by (simp add: Wmap[symmetric] last_map)
    ultimately show ?thesis by simp
  qed
  have step3: "map (\<lambda>i. W ! i) idxs @ [last W] = run_lasts (\<lambda>q. cp0 ! q) W"
    using ends_run_lasts[OF Wne, of "\<lambda>q. cp0 ! q"]
    by (simp add: idxs_def cpW lencp lenW)
  show "uvb = map (\<lambda>q. vs ! q) (kept_pos asort ages0 cp0)"
  proof -
    have e: "map (\<lambda>i. p ! i) (map (\<lambda>i. sidx ! i) idxs @ [last sidx]) = run_lasts (\<lambda>q. cp0 ! q) W"
      using step2 step3 by (rule trans)
    have "uvb = map (\<lambda>q. vs ! q) (run_lasts (\<lambda>q. cp0 ! q) W)"
      using step1 by (simp only: e)
    then show ?thesis by (simp only: kept_pos_def W_def p_def)
  qed
qed

lemma last_filter_keep: "xs \<noteq> [] \<Longrightarrow> P (last xs) \<Longrightarrow> last (filter P xs) = last xs"
  by (induction xs) (auto simp: filter_empty_conv)

lemma is_argsort_stable: "is_argsort stable_argsort"
  by (simp add: is_argsort_def stable_argsort_def)

lemma kept_pos_subset:
  assumes "is_argsort asort"
  shows "set (kept_pos asort ages0 cp0) \<subseteq> {0..<length cp0}"
proof -
  have "set (kept_pos asort ages0 cp0) \<subseteq> set (asort cp0)"
    unfolding kept_pos_def using run_lasts_subset by fastforce
  then show ?thesis using is_argsortD(4)[OF assms, of cp0] by simp
qed

lemma kept_pos_distinct: "distinct (map (\<lambda>q. cp0 ! q) (kept_pos asort ages0 cp0))"
  unfolding kept_pos_def by (rule run_lasts_distinct) (rule sorted_sort_key)

lemma kept_pos_cells:
  assumes "is_argsort asort"
  shows "(\<lambda>q. cp0 ! q) ` set (kept_pos asort ages0 cp0) = set cp0"
proof -
  have "(\<lambda>q. cp0 ! q) ` set (kept_pos asort ages0 cp0) = (\<lambda>q. cp0 ! q) ` {0..<length cp0}"
    unfolding kept_pos_def run_lasts_keys using is_argsortD(4)[OF assms, of cp0] by simp
  also have "\<dots> = set cp0"
    by (auto simp: set_conv_nth)
  finally show ?thesis .
qed

lemma kept_pos_oldest:
  assumes asort: "is_argsort asort"
    and q: "q \<in> set (kept_pos asort ages0 cp0)"
    and r: "r < length cp0" "cp0 ! r = cp0 ! q"
  shows "ages0 ! r \<le> ages0 ! q"
proof -
  define W where "W = sort_key (\<lambda>q. cp0 ! q) (sort_key (\<lambda>q. ages0 ! q) (asort cp0))"
  define F where "F = filter (\<lambda>y. cp0 ! y = cp0 ! q) (asort cp0)"
  have "q = last (filter (\<lambda>y. cp0 ! y = cp0 ! q) W)"
    using q unfolding kept_pos_def W_def by (intro run_lasts_last) (rule sorted_sort_key)
  also have "filter (\<lambda>y. cp0 ! y = cp0 ! q) W = sort_key (\<lambda>q. ages0 ! q) F"
    unfolding W_def F_def by (simp only: sort_key_stable filter_sort)
  finally have ql: "q = last (sort_key (\<lambda>q. ages0 ! q) F)" .
  have "r \<in> set (asort cp0)" using r(1) is_argsortD(4)[OF asort, of cp0] by simp
  then have "r \<in> set (sort_key (\<lambda>q. ages0 ! q) F)" using r(2) by (simp add: F_def)
  then have "ages0 ! r \<le> ages0 ! last (sort_key (\<lambda>q. ages0 ! q) F)"
    by (intro sorted_le_last[where f = "\<lambda>q. ages0 ! q"]) (rule sorted_sort_key)
  then show ?thesis using ql by simp
qed

lemma kept_pos_stable_tie:
  assumes q: "q \<in> set (kept_pos stable_argsort ages0 cp0)"
    and r: "r < length cp0" "cp0 ! r = cp0 ! q" "ages0 ! r = ages0 ! q"
  shows "r \<le> q"
proof -
  define W where "W = sort_key (\<lambda>q. cp0 ! q) (sort_key (\<lambda>q. ages0 ! q) (stable_argsort cp0))"
  define F where "F = filter (\<lambda>y. cp0 ! y = cp0 ! q) [0..<length cp0]"
  define S where "S = sort_key (\<lambda>q. ages0 ! q) F"
  define G where "G = filter (\<lambda>y. ages0 ! y = ages0 ! q) F"
  have "q = last (filter (\<lambda>y. cp0 ! y = cp0 ! q) W)"
    using q unfolding kept_pos_def W_def by (intro run_lasts_last) (rule sorted_sort_key)
  also have "filter (\<lambda>y. cp0 ! y = cp0 ! q) W = S"
    unfolding W_def F_def S_def stable_argsort_def by (simp only: sort_key_stable filter_sort)
  finally have ql: "q = last S" .
  have GS: "G = filter (\<lambda>y. ages0 ! y = ages0 ! q) S"
    unfolding G_def S_def by (simp only: sort_key_stable)
  have rG: "r \<in> set G" using r by (simp add: G_def F_def)
  then have "S \<noteq> []" unfolding GS by auto
  then have "last G = last S"
    unfolding GS using ql by (intro last_filter_keep) simp_all
  then have qG: "q = last G" using ql by simp
  have "sorted (map (\<lambda>x. x) G)" unfolding G_def F_def by (simp add: sorted_wrt_filter)
  then have "r \<le> last G" using rG by (rule sorted_le_last[where f = "\<lambda>x. x"])
  then show ?thesis using qG by simp
qed

lemma is_argsort_unstable: "is_argsort unstable_argsort"
proof -
  have P: "mset (filter even xs @ filter odd xs) = mset xs" for xs :: "nat list"
    by (induction xs) simp_all
  show ?thesis
    unfolding is_argsort_def unstable_argsort_def
  proof (intro allI conjI)
    fix ks :: "int list"
    show "mset (sort_key (\<lambda>i. ks ! i) (filter even [0..<length ks] @ filter odd [0..<length ks]))
            = mset [0..<length ks]"
      by (simp only: mset_sort P)
    show "sorted (map (\<lambda>i. ks ! i)
            (sort_key (\<lambda>i. ks ! i) (filter even [0..<length ks] @ filter odd [0..<length ks])))"
      by (rule sorted_sort_key)
  qed
qed

lemma index_of_last_filter:
  "distinct xs \<Longrightarrow> x \<in> set (filter Q xs) \<Longrightarrow> index_of xs x \<le> index_of xs (last (filter Q xs))"
proof (induction xs)
  case (Cons a xs)
  show ?case
  proof (cases "a = x")
    case True
    then show ?thesis by (simp add: index_of_def)
  next
    case False
    with Cons.prems have x: "x \<in> set (filter Q xs)" and d: "distinct xs" and a: "a \<notin> set xs"
      by (auto split: if_splits)
    have ne: "filter Q xs \<noteq> []" using x by (auto simp: filter_empty_conv)
    have "last (filter Q (a # xs)) = last (filter Q xs)" using ne by simp
    moreover have "last (filter Q xs) \<in> set xs"
      using last_in_set[OF ne] by auto
    then have "a \<noteq> last (filter Q xs)" using a by auto
    ultimately show ?thesis
      using Cons.IH[OF d x] False by (simp add: index_of_def)
  qed
qed simp

lemma index_of_map:
  assumes "inj_on f (set xs \<union> {x})"
  shows "index_of (map f xs) (f x) = index_of xs x"
proof -
  have "takeWhile ((\<lambda>y. y \<noteq> f x) \<circ> f) xs = takeWhile (\<lambda>y. y \<noteq> x) xs"
    by (rule takeWhile_cong) (use assms in \<open>auto simp: inj_on_def\<close>)
  then show ?thesis by (simp add: index_of_def takeWhile_map)
qed

lemma kept_pos_tie:
  assumes asort: "is_argsort asort"
    and q: "q \<in> set (kept_pos asort ages0 cp0)"
    and r: "r < length cp0" "cp0 ! r = cp0 ! q" "ages0 ! r = ages0 ! q"
  shows "index_of (asort cp0) r \<le> index_of (asort cp0) q"
proof -
  define W where "W = sort_key (\<lambda>q. cp0 ! q) (sort_key (\<lambda>q. ages0 ! q) (asort cp0))"
  define F where "F = filter (\<lambda>y. cp0 ! y = cp0 ! q) (asort cp0)"
  define S where "S = sort_key (\<lambda>q. ages0 ! q) F"
  define G where "G = filter (\<lambda>y. ages0 ! y = ages0 ! q) F"
  have "q = last (filter (\<lambda>y. cp0 ! y = cp0 ! q) W)"
    using q unfolding kept_pos_def W_def by (intro run_lasts_last) (rule sorted_sort_key)
  also have "filter (\<lambda>y. cp0 ! y = cp0 ! q) W = S"
    unfolding W_def F_def S_def by (simp only: sort_key_stable filter_sort)
  finally have ql: "q = last S" .
  have GS: "G = filter (\<lambda>y. ages0 ! y = ages0 ! q) S"
    unfolding G_def S_def by (simp only: sort_key_stable)
  have "r \<in> set (asort cp0)" using r(1) is_argsortD(4)[OF asort, of cp0] by simp
  then have rG: "r \<in> set G" using r by (simp add: G_def F_def)
  then have "S \<noteq> []" unfolding GS by auto
  then have "last G = last S"
    unfolding GS using ql by (intro last_filter_keep) simp_all
  then have qG: "q = last G" using ql by simp
  have Gf: "G = filter (\<lambda>y. cp0 ! y = cp0 ! q \<and> ages0 ! y = ages0 ! q) (asort cp0)"
    by (simp add: G_def F_def)
  have L: "index_of (asort cp0) r \<le> index_of (asort cp0) (last G)"
    using rG is_argsortD(5)[OF asort, of cp0] unfolding Gf by (intro index_of_last_filter)
  show ?thesis by (subst qG) (rule L)
qed

subsection \<open>Masks, indices and the coarse grid\<close>

lemma fold_clear_nth:
  "i < length m \<Longrightarrow> fold (\<lambda>i m. m[i := False]) idx m ! i = (m ! i \<and> i \<notin> set idx)"
proof (induction idx arbitrary: m)
  case (Cons a idx)
  then show ?case by (cases "a = i") auto
qed simp

lemma length_fold_clear: "length (fold (\<lambda>i m. m[i := False]) idx m) = length m"
  by (induction idx arbitrary: m) auto

lemma clear_at_nth: "i < n \<Longrightarrow> clear_at n idx ! i = (i \<notin> set idx)"
  by (simp add: clear_at_def fold_clear_nth)

lemma length_clear_at: "length (clear_at n idx) = n"
  by (simp add: clear_at_def length_fold_clear)

lemma set_nonzero: "set (nonzero m) = {i. i < length m \<and> m ! i}"
  by (auto simp: nonzero_def)

lemma sorted_nonzero: "sorted_wrt (<) (nonzero m)"
  by (simp add: nonzero_def sorted_wrt_filter)

lemma sorted_take_idx:
  assumes "sorted_wrt (<) (xs :: nat list)" "sorted_wrt (<) is" "\<forall>i\<in>set is. i < length xs"
  shows "sorted_wrt (<) (take_idx xs is)"
proof -
  have "sorted_wrt (\<lambda>i j. xs ! i < xs ! j) is"
    using assms(2)
  proof (rule sorted_wrt_mono_rel[rotated])
    fix i j assume "i \<in> set is" "j \<in> set is" "i < j"
    then show "xs ! i < xs ! j"
      using assms(1,3) by (simp add: sorted_wrt_iff_nth_less)
  qed
  then show ?thesis by (simp add: take_idx_def sorted_wrt_map)
qed

lemma length_logical_and: "length (logical_and a b) = min (length a) (length b)"
  by (simp add: logical_and_def)

lemma sorted_on_frame_idx: "sorted_wrt (<) (on_frame_idx s)"
  by (simp add: on_frame_idx_def sorted_nonzero)

lemma on_frame_idx_lt: "i \<in> set (on_frame_idx s) \<Longrightarrow> i < length (pos s)"
  by (auto simp: on_frame_idx_def set_nonzero get_off_edges_mask_def)

lemma survivors_subset: "set (survivors s) \<subseteq> set (on_frame_idx s)"
  by (auto simp: survivors_def Let_def bool_idx_def take_idx_def set_nonzero length_logical_and
      same_polarity_mask_def noise_mask_def unsunk_mask_def pos2_of_def)

lemma sorted_survivors: "sorted_wrt (<) (survivors s)"
  unfolding survivors_def Let_def bool_idx_def
  by (rule sorted_take_idx[OF sorted_on_frame_idx sorted_nonzero])
     (simp add: set_nonzero length_logical_and)


lemma set_bad_balls_InrD:
  assumes "set_bad_balls asort True True True s = Inr s'"
  shows "\<exists>xc yc cp0 uvb.
     coarse_grid_pos s (map px (take_idx (pos s) (survivors s)))
        (map py (take_idx (pos s) (survivors s))) = Inr (xc, yc, cp0) \<and>
     decimation asort (survivors s) (take_idx (balls_age s) (survivors s)) cp0 = Inr uvb \<and>
     s' = s\<lparr>unique_valid_balls := uvb,
            bad_balls_mask := clear_at (length (pos s)) uvb,
            new_valid_balls_mask := map Not (clear_at (length (pos s)) uvb)\<rparr>"
  using assms unfolding set_bad_balls_def survivors_def Let_def
  by (simp split: if_splits sum.splits prod.splits)

lemma coarse_grid_pos_length:
  assumes "coarse_grid_pos s xs ys = Inr (xc, yc, ci)"
  shows "length xc = length xs" "length yc = length ys" "length ci = min (length xs) (length ys)"
  using assms unfolding coarse_grid_pos_def ravel_multi_index_def Let_def
  by (auto split: if_splits)

lemma coarse_grid_pos_nth:
  assumes "coarse_grid_pos s xs ys = Inr (xc, yc, ci)" "length xs = length ys" "k < length xs"
  shows "coarse_grid_pos s [xs ! k] [ys ! k] = Inr ([xc ! k], [yc ! k], [ci ! k])"
  using assms unfolding coarse_grid_pos_def ravel_multi_index_def Let_def
  by (auto split: if_splits simp: list_all_length)


lemma ravel_inj:
  fixes x1 x2 y1 y2 nc :: int
  assumes "0 \<le> x1" "x1 < nc" "0 \<le> x2" "x2 < nc" "y1 * nc + x1 = y2 * nc + x2"
  shows "x1 = x2 \<and> y1 = y2"
proof -
  have "(y1 * nc + x1) mod nc = x1" "(y2 * nc + x2) mod nc = x2"
    using assms(1-4) by simp_all
  then have x: "x1 = x2" using assms(5) by metis
  then have "y1 * nc = y2 * nc" using assms(5) by simp
  moreover have "nc \<noteq> 0" using assms by auto
  ultimately show ?thesis using x by simp
qed

lemma coarse_grid_pos_same_cell:
  assumes cg: "coarse_grid_pos s xs ys = Inr (xc, yc, ci)" and len: "length xs = length ys"
    and q: "q < length xs" and r: "r < length xs" and eq: "ci ! q = ci ! r"
  shows "xc ! q = xc ! r \<and> yc ! q = yc ! r"
proof -
  have lens: "length xc = length xs" "length yc = length xs"
    using coarse_grid_pos_length[OF cg] len by simp_all
  have all: "\<forall>k<length xs. uint (xc ! k) < nxc s \<and> ci ! k = uint (yc ! k) * nxc s + uint (xc ! k)"
    using cg len unfolding coarse_grid_pos_def ravel_multi_index_def Let_def
    by (auto split: if_splits simp: list_all_length)
  have "uint (xc ! q) = uint (xc ! r) \<and> uint (yc ! q) = uint (yc ! r)"
    using all q r eq by (intro ravel_inj[of _ "nxc s"]) auto
  then show ?thesis by (simp add: word_uint_eq_iff)
qed

lemma set_bad_balls_kept:
  assumes asort: "is_argsort asort"
    and sbb: "set_bad_balls asort True True True s = Inr s'"
  shows "\<exists>xc yc cp0.
     length cp0 = length (survivors s) \<and>
     (\<forall>q<length (survivors s).
        cell_of s (pos s ! (survivors s ! q)) = Inr ([xc ! q], [yc ! q], [cp0 ! q])) \<and>
     (\<forall>q<length (survivors s). \<forall>r<length (survivors s).
        (cell_of s (pos s ! (survivors s ! q)) = cell_of s (pos s ! (survivors s ! r)))
          = (cp0 ! q = cp0 ! r)) \<and>
     unique_valid_balls s' =
        map (\<lambda>q. survivors s ! q) (kept_pos asort (take_idx (balls_age s) (survivors s)) cp0) \<and>
     bad_balls_mask s' = clear_at (length (pos s)) (unique_valid_balls s') \<and>
     new_valid_balls_mask s' = map Not (bad_balls_mask s') \<and>
     pos s' = pos s \<and> balls_age s' = balls_age s \<and> vel s' = vel s"
proof -
  define vs where "vs = survivors s"
  from set_bad_balls_InrD[OF sbb] obtain xc yc cp0 uvb where
    cg: "coarse_grid_pos s (map px (take_idx (pos s) vs)) (map py (take_idx (pos s) vs)) = Inr (xc, yc, cp0)"
    and dec: "decimation asort vs (take_idx (balls_age s) vs) cp0 = Inr uvb"
    and s': "s' = s\<lparr>unique_valid_balls := uvb,
            bad_balls_mask := clear_at (length (pos s)) uvb,
            new_valid_balls_mask := map Not (clear_at (length (pos s)) uvb)\<rparr>"
    unfolding vs_def by blast
  have len: "length cp0 = length vs"
    using coarse_grid_pos_length(3)[OF cg] by (simp add: take_idx_def)
  have cells: "cell_of s (pos s ! (vs ! q)) = Inr ([xc ! q], [yc ! q], [cp0 ! q])" if "q < length vs" for q
    using coarse_grid_pos_nth[OF cg, of q] that by (simp add: cell_of_def take_idx_def)
  have same: "(cell_of s (pos s ! (vs ! q)) = cell_of s (pos s ! (vs ! r))) = (cp0 ! q = cp0 ! r)"
    if "q < length vs" "r < length vs" for q r
    using coarse_grid_pos_same_cell[OF cg, of q r] cells[OF that(1)] cells[OF that(2)] that
    by (auto simp: take_idx_def)
  have "uvb = map (\<lambda>q. vs ! q) (kept_pos asort (take_idx (balls_age s) vs) cp0)"
    by (rule decimation_kept_pos(2)[OF asort dec])
  then show ?thesis using len cells same s' unfolding vs_def[symmetric]
    by (intro exI[of _ xc] exI[of _ yc] exI[of _ cp0]) simp
qed



lemma new_valid_iff:
  assumes asort: "is_argsort asort"
    and sbb: "set_bad_balls asort True True True s = Inr s'"
    and i: "i < length (pos s)"
  shows "new_valid_balls_mask s' ! i = (i \<in> set (unique_valid_balls s'))"
    and "bad_balls_mask s' ! i = (i \<notin> set (unique_valid_balls s'))"
    and "length (new_valid_balls_mask s') = length (pos s)"
    and "length (bad_balls_mask s') = length (pos s)"
  using set_bad_balls_kept[OF asort sbb] i
  by (auto simp: clear_at_nth length_clear_at)


lemma decimation_cell_facts:
  assumes asort: "is_argsort asort"
    and sbb: "set_bad_balls asort True True True s = Inr s'"
  shows "\<exists>cp0 K.
     length cp0 = length (survivors s) \<and> set K \<subseteq> {0..<length (survivors s)} \<and>
     K = kept_pos asort (take_idx (balls_age s) (survivors s)) cp0 \<and>
     (\<forall>q<length (survivors s). \<forall>r<length (survivors s).
        (cell_of s (pos s ! (survivors s ! q)) = cell_of s (pos s ! (survivors s ! r)))
          = (cp0 ! q = cp0 ! r)) \<and>
     (\<forall>q<length (survivors s).
        new_valid_balls_mask s' ! (survivors s ! q) = (q \<in> set K))"
proof -
  define vs where "vs = survivors s"
  from set_bad_balls_kept[OF asort sbb] obtain xc yc cp0 where
    len: "length cp0 = length vs"
    and same: "\<forall>q<length vs. \<forall>r<length vs.
        (cell_of s (pos s ! (vs ! q)) = cell_of s (pos s ! (vs ! r))) = (cp0 ! q = cp0 ! r)"
    and uvb: "unique_valid_balls s' = map (\<lambda>q. vs ! q) (kept_pos asort (take_idx (balls_age s) vs) cp0)"
    unfolding vs_def by blast
  define K where "K = kept_pos asort (take_idx (balls_age s) vs) cp0"
  have Ksub: "set K \<subseteq> {0..<length vs}"
    using kept_pos_subset[OF asort, of "take_idx (balls_age s) vs" cp0] by (simp add: K_def len)
  have dist: "distinct vs" using sorted_survivors[of s] by (simp add: vs_def strict_sorted_iff)
  have valid: "new_valid_balls_mask s' ! (vs ! q) = (q \<in> set K)" if q: "q < length vs" for q
  proof -
    have "vs ! q \<in> set (survivors s)" using q by (simp add: vs_def)
    then have "vs ! q < length (pos s)" using survivors_subset on_frame_idx_lt by blast
    then have "new_valid_balls_mask s' ! (vs ! q) = (vs ! q \<in> set (map (\<lambda>q. vs ! q) K))"
      using new_valid_iff(1)[OF asort sbb] uvb by (simp add: K_def)
    also have "\<dots> = (q \<in> set K)"
    proof
      assume "vs ! q \<in> set (map (\<lambda>q. vs ! q) K)"
      then obtain q' where q': "q' \<in> set K" "vs ! q = vs ! q'" by auto
      then have "q' < length vs" using Ksub by auto
      then have "q = q'" using q'(2) q dist by (simp add: nth_eq_iff_index_eq)
      then show "q \<in> set K" using q'(1) by simp
    qed simp
    finally show ?thesis .
  qed
  show ?thesis
    using len Ksub same valid unfolding vs_def[symmetric]
    by (intro exI[of _ cp0] exI[of _ K]) (simp add: K_def)
qed

lemma decimation_order_facts:
  assumes asort: "is_argsort asort"
    and sbb: "set_bad_balls asort True True True s = Inr s'"
  shows "\<exists>cp0 K.
     length cp0 = length (survivors s) \<and> set K \<subseteq> {0..<length (survivors s)} \<and>
     K = kept_pos asort (take_idx (balls_age s) (survivors s)) cp0 \<and>
     (\<forall>q<length (survivors s). \<forall>r<length (survivors s).
        (cell_of s (pos s ! (survivors s ! q)) = cell_of s (pos s ! (survivors s ! r)))
          = (cp0 ! q = cp0 ! r)) \<and>
     (\<forall>q<length (survivors s).
        new_valid_balls_mask s' ! (survivors s ! q) = (q \<in> set K)) \<and>
     sort_order asort s = map (\<lambda>q. survivors s ! q) (asort cp0)"
proof -
  define vs where "vs = survivors s"
  from set_bad_balls_InrD[OF sbb] obtain xc yc cp0 uvb where
    cg: "coarse_grid_pos s (map px (take_idx (pos s) vs)) (map py (take_idx (pos s) vs)) = Inr (xc, yc, cp0)"
    and dec: "decimation asort vs (take_idx (balls_age s) vs) cp0 = Inr uvb"
    and s': "s' = s\<lparr>unique_valid_balls := uvb,
            bad_balls_mask := clear_at (length (pos s)) uvb,
            new_valid_balls_mask := map Not (clear_at (length (pos s)) uvb)\<rparr>"
    unfolding vs_def by blast
  have len: "length cp0 = length vs"
    using coarse_grid_pos_length(3)[OF cg] by (simp add: take_idx_def)
  have cells: "cell_of s (pos s ! (vs ! q)) = Inr ([xc ! q], [yc ! q], [cp0 ! q])" if "q < length vs" for q
    using coarse_grid_pos_nth[OF cg, of q] that by (simp add: cell_of_def take_idx_def)
  have same: "(cell_of s (pos s ! (vs ! q)) = cell_of s (pos s ! (vs ! r))) = (cp0 ! q = cp0 ! r)"
    if "q < length vs" "r < length vs" for q r
    using coarse_grid_pos_same_cell[OF cg, of q r] cells[OF that(1)] cells[OF that(2)] that
    by (auto simp: take_idx_def)
  have uvb: "unique_valid_balls s' = map (\<lambda>q. vs ! q) (kept_pos asort (take_idx (balls_age s) vs) cp0)"
    using decimation_kept_pos(2)[OF asort dec] s' by simp
  define K where "K = kept_pos asort (take_idx (balls_age s) vs) cp0"
  have Ksub: "set K \<subseteq> {0..<length vs}"
    using kept_pos_subset[OF asort, of "take_idx (balls_age s) vs" cp0] by (simp add: K_def len)
  have dist: "distinct vs" using sorted_survivors[of s] by (simp add: vs_def strict_sorted_iff)
  have valid: "new_valid_balls_mask s' ! (vs ! q) = (q \<in> set K)" if q: "q < length vs" for q
  proof -
    have "vs ! q \<in> set (survivors s)" using q by (simp add: vs_def)
    then have "vs ! q < length (pos s)" using survivors_subset on_frame_idx_lt by blast
    then have "new_valid_balls_mask s' ! (vs ! q) = (vs ! q \<in> set (map (\<lambda>q. vs ! q) K))"
      using new_valid_iff(1)[OF asort sbb] uvb by (simp add: K_def)
    also have "\<dots> = (q \<in> set K)"
    proof
      assume "vs ! q \<in> set (map (\<lambda>q. vs ! q) K)"
      then obtain q' where q': "q' \<in> set K" "vs ! q = vs ! q'" by auto
      then have "q' < length vs" using Ksub by auto
      then have "q = q'" using q'(2) q dist by (simp add: nth_eq_iff_index_eq)
      then show "q \<in> set K" using q'(1) by simp
    qed simp
    finally show ?thesis .
  qed
  have so: "sort_order asort s = map (\<lambda>q. vs ! q) (asort cp0)"
    unfolding sort_order_def vs_def[symmetric] cg by (simp add: take_idx_def)
  show ?thesis
    using len Ksub same valid so unfolding vs_def[symmetric]
    by (intro exI[of _ cp0] exI[of _ K]) (simp add: K_def)
qed

subsection \<open>One frame of the loop\<close>

lemma frame_stepD:
  assumes "frame_step ext n s = Inr s'"
  shows "\<exists>s2 s3. before_checks ext n s = Inr s2 \<and>
           set_bad_balls (argsort ext) True True True s2 = Inr s3 \<and> s' = flag_and_store n s3"
  using assms unfolding frame_step_def by (auto split: sum.splits)

lemma fold_preserves:
  assumes "\<And>x t. P t \<Longrightarrow> P (f x t)" "P s"
  shows "P (fold f xs s)"
  using assms(2) by (induction xs arbitrary: s) (auto intro: assms(1))

lemma integrate_step_same: "same_but_motion s t \<Longrightarrow> same_but_motion s (integrate_step ext sf t)"
  by (simp add: same_but_motion_def integrate_step_def)

lemma substeps_same:
  "same_but_motion s (substeps (integrate_step ext) a b k s)"
  unfolding substeps_def
  by (rule fold_preserves[where P = "same_but_motion s"])
     (simp_all add: integrate_step_same, simp add: same_but_motion_def)

lemma length_slice_assign: "slice_assign a lo hi vals = Inr b \<Longrightarrow> length b = length a"
  by (auto simp: slice_assign_def Let_def split: if_splits)

lemma length_slice_fill: "length (slice_fill a lo hi v) = length a"
  by (auto simp: slice_fill_def Let_def)


lemma populate_emergence_frame:
  assumes "populate_emergence ext s = Inr s'"
  shows "s' = s\<lparr>pos := pos s', vel := vel s', bad_balls_mask := bad_balls_mask s',
                new_valid_balls_mask := new_valid_balls_mask s', nballs := nballs s'\<rparr>"
    and "length (pos s') = length (pos s)" and "length (vel s') = length (vel s)"
  using assms unfolding populate_emergence_def Let_def
  by (auto split: prod.splits if_splits sum.splits
      dest!: length_slice_assign simp: length_slice_fill)


lemma before_checksD:
  assumes "before_checks ext n s = Inr s2"
  shows "s2\<lparr>pos := pos s, vel := vel s, bad_balls_mask := bad_balls_mask s,
            new_valid_balls_mask := new_valid_balls_mask s, nballs := nballs s\<rparr>
         = load_frame ext n s"
    and "length (pos s2) = length (pos s)" and "length (vel s2) = length (vel s)"
proof -
  define s1 where "s1 = load_frame ext n s"
  have s1: "pos s1 = pos s" "vel s1 = vel s" "bad_balls_mask s1 = bad_balls_mask s"
    "new_valid_balls_mask s1 = new_valid_balls_mask s" "nballs s1 = nballs s"
    by (simp_all add: s1_def load_frame_def Let_def)
  from assms obtain sp where sp: "(if track_emergence s1 \<and> n > 0 then populate_emergence ext s1 else Inr s1) = Inr sp"
    and s2: "s2 = substeps (integrate_step ext) (surface sp) (next_surface_of ext n s1) (intsteps sp) sp"
    unfolding before_checks_def Let_def s1_def[symmetric] by (auto split: sum.splits)
  have spall: "sp\<lparr>pos := pos s1, vel := vel s1, bad_balls_mask := bad_balls_mask s1,
                new_valid_balls_mask := new_valid_balls_mask s1, nballs := nballs s1\<rparr> = s1 \<and>
      length (pos sp) = length (pos s1) \<and> length (vel sp) = length (vel s1)"
  proof (cases "track_emergence s1 \<and> n > 0")
    case True
    then have pe: "populate_emergence ext s1 = Inr sp" using sp by (auto split: if_splits)
    have "sp\<lparr>pos := pos s1, vel := vel s1, bad_balls_mask := bad_balls_mask s1,
                new_valid_balls_mask := new_valid_balls_mask s1, nballs := nballs s1\<rparr> = s1"
      by (subst populate_emergence_frame(1)[OF pe]) simp
    then show ?thesis using populate_emergence_frame(2,3)[OF pe] by simp
  next
    case False
    then have "sp = s1" using sp by (auto split: if_splits)
    then show ?thesis by simp
  qed
  then have spf: "sp\<lparr>pos := pos s1, vel := vel s1, bad_balls_mask := bad_balls_mask s1,
                new_valid_balls_mask := new_valid_balls_mask s1, nballs := nballs s1\<rparr> = s1"
    and spl: "length (pos sp) = length (pos s1)" "length (vel sp) = length (vel s1)"
    by simp_all
  have sm: "same_but_motion sp s2" unfolding s2 by (rule substeps_same)
  then have s2sp: "s2\<lparr>pos := pos sp, vel := vel sp\<rparr> = sp"
    and l2: "length (pos s2) = length (pos sp)" "length (vel s2) = length (vel sp)"
    by (simp_all add: same_but_motion_def)
  have "s2\<lparr>pos := pos s, vel := vel s, bad_balls_mask := bad_balls_mask s,
            new_valid_balls_mask := new_valid_balls_mask s, nballs := nballs s\<rparr>
        = (s2\<lparr>pos := pos sp, vel := vel sp\<rparr>)\<lparr>pos := pos s1, vel := vel s1,
            bad_balls_mask := bad_balls_mask s1,
            new_valid_balls_mask := new_valid_balls_mask s1, nballs := nballs s1\<rparr>"
    by (simp add: s1)
  also have "\<dots> = s1" by (simp only: s2sp spf)
  finally show "s2\<lparr>pos := pos s, vel := vel s, bad_balls_mask := bad_balls_mask s,
            new_valid_balls_mask := new_valid_balls_mask s, nballs := nballs s\<rparr>
         = load_frame ext n s" by (simp add: s1_def)
  show "length (pos s2) = length (pos s)" "length (vel s2) = length (vel s)"
    using l2 spl s1 by simp_all
qed


lemma before_checks_fields:
  assumes "before_checks ext n s = Inr s2"
  shows "balls_age s2 = balls_age s" "rs s2 = rs s" "nx s2 = nx s" "ny s2 = ny s"
    "ballspacing s2 = ballspacing s" "nxc s2 = nxc s" "nyc s2 = nyc s" "nt s2 = nt s"
    "nballs_max s2 = nballs_max s" "ballpos s2 = ballpos s" "balls_age_t s2 = balls_age_t s"
    "valid_balls_mask_t s2 = valid_balls_mask_t s" "verbose s2 = verbose s"
    "track_emergence s2 = track_emergence s" "intsteps s2 = intsteps s"
    "stdout s2 = stdout s @ (if verbose s then [Frame_n n] else [])"
    "image_fr s2 = load_data ext n" "surface s2 = prep_function ext (load_data ext n)"
proof -
  note eq = before_checksD(1)[OF assms]
  show "balls_age s2 = balls_age s" using arg_cong[OF eq, of balls_age] by (simp add: load_frame_def)
  show "rs s2 = rs s" using arg_cong[OF eq, of rs] by (simp add: load_frame_def)
  show "nx s2 = nx s" using arg_cong[OF eq, of nx] by (simp add: load_frame_def)
  show "ny s2 = ny s" using arg_cong[OF eq, of ny] by (simp add: load_frame_def)
  show "ballspacing s2 = ballspacing s" using arg_cong[OF eq, of ballspacing] by (simp add: load_frame_def)
  show "nxc s2 = nxc s" using arg_cong[OF eq, of nxc] by (simp add: load_frame_def)
  show "nyc s2 = nyc s" using arg_cong[OF eq, of nyc] by (simp add: load_frame_def)
  show "nt s2 = nt s" using arg_cong[OF eq, of nt] by (simp add: load_frame_def)
  show "nballs_max s2 = nballs_max s" using arg_cong[OF eq, of nballs_max] by (simp add: load_frame_def)
  show "ballpos s2 = ballpos s" using arg_cong[OF eq, of ballpos] by (simp add: load_frame_def)
  show "balls_age_t s2 = balls_age_t s" using arg_cong[OF eq, of balls_age_t] by (simp add: load_frame_def)
  show "valid_balls_mask_t s2 = valid_balls_mask_t s"
    using arg_cong[OF eq, of valid_balls_mask_t] by (simp add: load_frame_def)
  show "verbose s2 = verbose s" using arg_cong[OF eq, of verbose] by (simp add: load_frame_def)
  show "track_emergence s2 = track_emergence s"
    using arg_cong[OF eq, of track_emergence] by (simp add: load_frame_def)
  show "intsteps s2 = intsteps s" using arg_cong[OF eq, of intsteps] by (simp add: load_frame_def)
  show "stdout s2 = stdout s @ (if verbose s then [Frame_n n] else [])"
    using arg_cong[OF eq, of stdout] by (simp add: load_frame_def)
  show "image_fr s2 = load_data ext n" using arg_cong[OF eq, of image_fr] by (simp add: load_frame_def)
  show "surface s2 = prep_function ext (load_data ext n)"
    using arg_cong[OF eq, of surface] by (simp add: load_frame_def)
qed

lemma flag_and_store_fields:
  "new_valid_balls_mask (flag_and_store n s) = new_valid_balls_mask s"
  "bad_balls_mask (flag_and_store n s) = bad_balls_mask s"
  "pos (flag_and_store n s) = map2 (\<lambda>p bad. if bad then sentinel else p) (pos s) (bad_balls_mask s)"
  "vel (flag_and_store n s) = map2 (\<lambda>v bad. if bad then (NaN, NaN, NaN) else v) (vel s) (bad_balls_mask s)"
  "balls_age (flag_and_store n s) =
     map2 (\<lambda>a valid. if valid then a + 1 else a) (balls_age s) (new_valid_balls_mask s)"
  "ballpos (flag_and_store n s) = (ballpos s)[n := pos (flag_and_store n s)]"
  "balls_age_t (flag_and_store n s) = (balls_age_t s)[n := balls_age (flag_and_store n s)]"
  "valid_balls_mask_t (flag_and_store n s) = (valid_balls_mask_t s)[n := new_valid_balls_mask s]"
  "ballspacing (flag_and_store n s) = ballspacing s" "nxc (flag_and_store n s) = nxc s"
  "nyc (flag_and_store n s) = nyc s" "nt (flag_and_store n s) = nt s"
  "nballs_max (flag_and_store n s) = nballs_max s" "nballs (flag_and_store n s) = nballs s"
  "stdout (flag_and_store n s) = stdout s" "rs (flag_and_store n s) = rs s"
  by (simp_all add: flag_and_store_def Let_def)


lemma unique_valid_subset:
  assumes "is_argsort asort" "set_bad_balls asort True True True s = Inr s'"
  shows "set (unique_valid_balls s') \<subseteq> set (survivors s)"
proof -
  from set_bad_balls_kept[OF assms] obtain cp0 where
    len: "length cp0 = length (survivors s)"
    and uvb: "unique_valid_balls s' =
        map (\<lambda>q. survivors s ! q) (kept_pos asort (take_idx (balls_age s) (survivors s)) cp0)"
    by blast
  show ?thesis
    using kept_pos_subset[OF assms(1), of "take_idx (balls_age s) (survivors s)" cp0]
    unfolding uvb len by auto
qed

lemma valid_on_frame:
  assumes "is_argsort asort" "set_bad_balls asort True True True s = Inr s'"
    "i < length (pos s)" "new_valid_balls_mask s' ! i"
  shows "i \<in> set (survivors s)" "i \<in> set (on_frame_idx s)"
proof -
  show "i \<in> set (survivors s)"
    using new_valid_iff(1)[OF assms(1,2,3)] assms(4) unique_valid_subset[OF assms(1,2)] by auto
  then show "i \<in> set (on_frame_idx s)" using survivors_subset by blast
qed

lemma on_frame_not_sentinel:
  assumes "i \<in> set (on_frame_idx s)" "- 1 < rs s"
  shows "pos s ! i \<noteq> sentinel"
  using assms
  by (auto simp: on_frame_idx_def set_nonzero get_off_edges_mask_def sentinel_def px_def)

lemma cell_of_cong:
  "ballspacing s = ballspacing t \<Longrightarrow> nxc s = nxc t \<Longrightarrow> nyc s = nyc t \<Longrightarrow> cell_of s p = cell_of t p"
  by (simp add: cell_of_def coarse_grid_pos_def)

lemma set_bad_balls_distinct_cells:
  assumes asort: "is_argsort asort"
    and sbb: "set_bad_balls asort True True True s = Inr s'"
    and ij: "i < length (pos s)" "j < length (pos s)" "i \<noteq> j"
    and v: "new_valid_balls_mask s' ! i" "new_valid_balls_mask s' ! j"
  shows "\<exists>ci cj. cell_of s (pos s ! i) = Inr ci \<and> cell_of s (pos s ! j) = Inr cj \<and> ci \<noteq> cj"
proof -
  define vs where "vs = survivors s"
  from set_bad_balls_kept[OF asort sbb] obtain xc yc cp1 where
    cells: "\<forall>q<length vs. cell_of s (pos s ! (vs ! q)) = Inr ([xc ! q], [yc ! q], [cp1 ! q])"
    unfolding vs_def by blast
  from decimation_cell_facts[OF asort sbb] obtain cp0 K where
    K: "K = kept_pos asort (take_idx (balls_age s) vs) cp0"
    and same: "\<And>q r. q < length vs \<Longrightarrow> r < length vs \<Longrightarrow>
        (cell_of s (pos s ! (vs ! q)) = cell_of s (pos s ! (vs ! r))) = (cp0 ! q = cp0 ! r)"
    and valid: "\<And>q. q < length vs \<Longrightarrow> new_valid_balls_mask s' ! (vs ! q) = (q \<in> set K)"
    unfolding vs_def by blast
  have "i \<in> set vs" "j \<in> set vs"
    using valid_on_frame(1)[OF asort sbb] ij v by (simp_all add: vs_def)
  then obtain q r where q: "q < length vs" "i = vs ! q" and r: "r < length vs" "j = vs ! r"
    by (auto simp: in_set_conv_nth)
  have qr: "q \<noteq> r" using ij(3) q r by auto
  have "q \<in> set K" "r \<in> set K" using valid q r v by auto
  then have "cp0 ! q \<noteq> cp0 ! r"
    using kept_pos_distinct[where ?cp0.0 = cp0 and asort = asort
        and ?ages0.0 = "take_idx (balls_age s) vs"] qr
    by (auto simp: K distinct_map dest: inj_onD)
  then have "cell_of s (pos s ! i) \<noteq> cell_of s (pos s ! j)"
    using same[OF q(1) r(1)] q(2) r(2) by simp
  then show ?thesis using cells q r by auto
qed

lemma frame_step_facts:
  assumes asort: "is_argsort (argsort ext)"
    and step: "frame_step ext n s = Inr s'"
    and shp: "shapes_ok s"
  shows "\<exists>s2 s3. before_checks ext n s = Inr s2 \<and>
      set_bad_balls (argsort ext) True True True s2 = Inr s3 \<and> s' = flag_and_store n s3 \<and>
      length (pos s3) = nballs_max s \<and> length (vel s3) = nballs_max s \<and>
      balls_age s3 = balls_age s \<and> pos s3 = pos s2 \<and>
      length (bad_balls_mask s3) = nballs_max s \<and>
      new_valid_balls_mask s3 = map Not (bad_balls_mask s3) \<and>
      ballpos s3 = ballpos s \<and> balls_age_t s3 = balls_age_t s \<and>
      valid_balls_mask_t s3 = valid_balls_mask_t s \<and> rs s2 = rs s"
proof -
  from frame_stepD[OF step] obtain s2 s3 where
    bc: "before_checks ext n s = Inr s2"
    and sbb: "set_bad_balls (argsort ext) True True True s2 = Inr s3"
    and s': "s' = flag_and_store n s3" by blast
  note k = set_bad_balls_kept[OF asort sbb]
  note f = before_checks_fields[OF bc]
  note l = before_checksD(2,3)[OF bc]
  have s3: "s3 = s2\<lparr>unique_valid_balls := unique_valid_balls s3,
            bad_balls_mask := bad_balls_mask s3,
            new_valid_balls_mask := new_valid_balls_mask s3\<rparr>"
    using set_bad_balls_InrD[OF sbb] by auto
  have h: "ballpos s3 = ballpos s2" "balls_age_t s3 = balls_age_t s2"
    "valid_balls_mask_t s3 = valid_balls_mask_t s2"
    by (subst s3, simp)+
  show ?thesis
    using bc sbb s' k f l h shp
    by (intro exI[of _ s2] exI[of _ s3]) (auto simp: shapes_ok_def length_clear_at)
qed






lemma survivors_checks:
  assumes "i \<in> set (survivors s)"
  shows "i \<in> set (on_frame_idx s) \<and>
    sgn (image_fr s (astype_int32 (py (pos s ! i))) (astype_int32 (px (pos s ! i))))
       * of_int (polarity s) \<ge> 0 \<and>
    \<bar>image_fr s (astype_int32 (py (pos s ! i))) (astype_int32 (px (pos s ! i)))\<bar> > noise_level s \<and>
    of_int (astype_int32 (pz (pos s ! i)))
       > surface s (astype_int32 (py (pos s ! i))) (astype_int32 (px (pos s ! i))) - min_ds s"
  using assms
  by (auto simp: survivors_def Let_def bool_idx_def take_idx_def set_nonzero length_logical_and
      same_polarity_mask_def noise_mask_def unsunk_mask_def pos2_of_def logical_and_def)

lemma any_true_logical_and:
  "any_true (logical_and a b) \<Longrightarrow> any_true a \<and> any_true b"
  by (auto simp: any_true_def logical_and_def list_ex_iff dest: set_zip_leftD set_zip_rightD)

lemma any_true_ones_and:
  "length b = n \<Longrightarrow> any_true (logical_and (replicate n True) b) = any_true b"
proof -
  assume "length b = n"
  then have "map2 (\<and>) (replicate n True) b = b"
    by (intro nth_equalityI) simp_all
  then show ?thesis by (simp add: logical_and_def)
qed

lemma set_bad_balls_polarity_exit:
  assumes "\<not> any_true (same_polarity_mask s (pos2_of s (on_frame_idx s)))"
  shows "set_bad_balls asort True cn cs s = Inl (SystemExit (stdout s @ [Msg msg_polarity]) 1)"
proof -
  have "length (same_polarity_mask s (pos2_of s (on_frame_idx s))) = length (on_frame_idx s)"
    by (simp add: same_polarity_mask_def pos2_of_def take_idx_def)
  then have "\<not> any_true (logical_and (replicate (length (on_frame_idx s)) True)
                 (same_polarity_mask s (pos2_of s (on_frame_idx s))))"
    using assms by (simp add: any_true_ones_and)
  then show ?thesis
    by (simp add: set_bad_balls_def Let_def)
qed


lemma msg_distinct:
  "msg_noise \<noteq> msg_polarity" "msg_sinking \<noteq> msg_polarity" "msg_noise \<noteq> msg_sinking"
  by (simp_all add: msg_noise_def msg_polarity_def msg_sinking_def)

lemma logical_and_ones: "length b = n \<Longrightarrow> logical_and (replicate n True) b = b"
  unfolding logical_and_def by (intro nth_equalityI) simp_all

lemma set_bad_balls_exit_msg:
  assumes "\<not> any_true (same_polarity_mask s (pos2_of s (on_frame_idx s))) \<or>
           \<not> any_true (noise_mask s (pos2_of s (on_frame_idx s))) \<or>
           \<not> any_true (unsunk_mask s (pos2_of s (on_frame_idx s)))"
  shows "set_bad_balls asort True True True s =
     Inl (SystemExit (stdout s @
       [Msg (if \<not> any_true (same_polarity_mask s (pos2_of s (on_frame_idx s))) then msg_polarity
             else if \<not> any_true (logical_and (same_polarity_mask s (pos2_of s (on_frame_idx s)))
                                   (noise_mask s (pos2_of s (on_frame_idx s))))
                  then msg_noise else msg_sinking)]) 1)"
proof -
  define P where "P = pos2_of s (on_frame_idx s)"
  define A where "A = logical_and (replicate (length (on_frame_idx s)) True) (same_polarity_mask s P)"
  define B where "B = logical_and A (noise_mask s P)"
  define C where "C = logical_and B (unsunk_mask s P)"
  have "length (same_polarity_mask s P) = length (on_frame_idx s)"
    by (simp add: same_polarity_mask_def pos2_of_def take_idx_def P_def)
  then have A_eq: "A = same_polarity_mask s P"
    unfolding A_def by (rule logical_and_ones)
  have nC: "\<not> any_true C"
    using assms any_true_logical_and[of B "unsunk_mask s P"]
      any_true_logical_and[of A "noise_mask s P"] A_eq
    unfolding C_def B_def P_def by blast
  have sbb: "set_bad_balls asort True True True s =
     (if \<not> any_true A then Inl (SystemExit (stdout s @ [Msg msg_polarity]) 1)
      else if \<not> any_true B then Inl (SystemExit (stdout s @ [Msg msg_noise]) 1)
      else Inl (SystemExit (stdout s @ [Msg msg_sinking]) 1))"
    unfolding set_bad_balls_def Let_def if_True HOL.simp_thms
    unfolding P_def[symmetric]
    unfolding A_def[symmetric]
    unfolding B_def[symmetric]
    unfolding C_def[symmetric]
    using nC by (simp only: if_True if_False HOL.simp_thms)
  show ?thesis
    unfolding P_def[symmetric] sbb B_def A_eq
    by (cases "any_true (same_polarity_mask s P)";
        cases "any_true (logical_and (same_polarity_mask s P) (noise_mask s P))") simp_all
qed

lemma run_frames_append:
  "run_frames ext (ms @ ns) s =
     (case run_frames ext ms s of Inl e \<Rightarrow> Inl e | Inr s1 \<Rightarrow> run_frames ext ns s1)"
  by (induction ms arbitrary: s) (auto split: sum.splits)

lemma integrate_step_still:
  assumes "integrate_motion ext = (\<lambda>s sf i. (pos s ! i, vel s ! i))"
  shows "integrate_step ext sf t = t"
  by (simp add: integrate_step_def assms map_nth)

lemma before_checks_still:
  assumes "integrate_motion ext = (\<lambda>s sf i. (pos s ! i, vel s ! i))" "\<not> track_emergence t"
  shows "before_checks ext n t = Inr (load_frame ext n t)"
proof -
  have "fold (\<lambda>i. integrate_step ext (f i)) xs u = u" for f xs u
    by (induction xs) (simp_all add: integrate_step_still[OF assms(1)])
  moreover have "\<not> track_emergence (load_frame ext n t)"
    using assms(2) by (simp add: load_frame_def Let_def)
  ultimately show ?thesis by (simp add: before_checks_def Let_def substeps_def)
qed

subsection \<open>The emergence step\<close>


















subsection \<open>Invalid slots over the frames\<close>












subsection \<open>Evaluation of the concrete inputs\<close>

lemma upt_small: "[0..<1] = [0]" "[0..<2] = [0, 1]" "[0..<3] = [0, 1, 2]" "[0..<4] = [0, 1, 2, 3]"
  by (simp_all add: eval_nat_numeral)

lemma replicate_small: "replicate 1 x = [x]" "replicate 2 x = [x, x]" "replicate 3 x = [x, x, x]"
  "replicate 4 x = [x, x, x, x]"
  by (simp_all add: eval_nat_numeral)

lemma crowded_eq: "crowded = \<lparr>
           rs = 2, ballspacing = 10, intsteps = 1, nt = 1,
           noise_level = 20, polarity = 1,
           track_emergence = False, verbose = False,
           image_fr = (\<lambda>r c. 100), surface = (\<lambda>r c. 0), nx = 40, ny = 40,
           nxc = 4, nyc = 4,
           min_ds = 8, nballs_max = 3,
           pos = [(12, 12, 0), (15, 14, 0), (25, 25, 0)],
           vel = [(Fin 0, Fin 0, Fin 0), (Fin 0, Fin 0, Fin 0), (Fin 0, Fin 0, Fin 0)],
           balls_age = [3, 5, 1],
           ballpos = [[(0, 0, 0), (0, 0, 0), (0, 0, 0)]],
           balls_age_t = [[1, 1, 1]],
           bad_balls_mask = [False, False, False],
           valid_balls_mask_t = [[True, True, True]],
           new_valid_balls_mask = [True, True, True],
           unique_valid_balls = [0, 1, 2],
           nballs = 3, nbadballs = 0, stdout = [] \<rparr>"
  by (simp add: crowded_def MBT_init_def still_ext_def coarse_grid_dims_def Let_def
      upt_small replicate_small)

lemma crowded_on_frame: "on_frame_idx crowded = [0, 1, 2]"
  by (simp add: crowded_eq on_frame_idx_def get_off_edges_mask_def nonzero_def px_def py_def upt_small)


lemmas check_defs = pos2_of_def take_idx_def astype_int32_def same_polarity_mask_def
  noise_mask_def unsunk_mask_def logical_and_def any_true_def bool_idx_def nonzero_def
  px_def py_def pz_def

lemma crowded_survivors: "survivors crowded = [0, 1, 2]"
  unfolding survivors_def crowded_on_frame Let_def
  by (simp add: crowded_eq check_defs upt_small replicate_small)

lemma crowded_cells:
  "coarse_grid_pos crowded [12, 15, 25] [12, 14, 25] = Inr ([1, 1, 2], [1, 1, 2], [5, 5, 10])"
  by (simp add: crowded_eq coarse_grid_pos_def uint32_def clip_def ravel_multi_index_def Let_def)

lemma crowded_decimation:
  "decimation stable_argsort [0, Suc 0, 2] [3, 5, 1] [5, 5, 10] = Inr [Suc 0, 2]"
  by (simp add: decimation_def stable_argsort_def lexsort2_def run_ends_def py_take_def
      take_idx_def Let_def upt_small word_le_nat_alt)

lemma clear_at_eq: "clear_at n idx = map (\<lambda>i. i \<notin> set idx) [0..<n]"
  by (rule nth_equalityI) (simp_all add: length_clear_at clear_at_nth)

lemma crowded_checks:
  "pos2_of crowded [0, 1, 2] = [(12, 12, 0), (15, 14, 0), (25, 25, 0)]"
  "same_polarity_mask crowded [(12, 12, 0), (15, 14, 0), (25, 25, 0)] = [True, True, True]"
  "noise_mask crowded [(12, 12, 0), (15, 14, 0), (25, 25, 0)] = [True, True, True]"
  "unsunk_mask crowded [(12, 12, 0), (15, 14, 0), (25, 25, 0)] = [True, True, True]"
  by (simp_all add: crowded_eq pos2_of_def take_idx_def astype_int32_def same_polarity_mask_def
      noise_mask_def unsunk_mask_def px_def py_def pz_def)


lemma crowded_fields:
  "pos crowded = [(12, 12, 0), (15, 14, 0), (25, 25, 0)]"
  "balls_age crowded = [3, 5, 1]" "stdout crowded = []"
  by (simp_all add: crowded_eq)

lemma crowded_set_bad_balls:
  "set_bad_balls stable_argsort True True True crowded =
     Inr (crowded\<lparr>unique_valid_balls := [1, 2], bad_balls_mask := [True, False, False],
          new_valid_balls_mask := [False, True, True]\<rparr>)"
  unfolding set_bad_balls_def crowded_on_frame Let_def crowded_checks
  by (simp add: logical_and_def any_true_def bool_idx_def nonzero_def take_idx_def upt_small
      replicate_small crowded_fields px_def py_def crowded_cells crowded_decimation clear_at_eq)

lemma crowded_before_checks: "before_checks still_ext 0 crowded = Inr crowded"
proof -
  have 1: "load_frame still_ext 0 crowded = crowded"
    by (simp add: load_frame_def still_ext_def crowded_eq)
  have 2: "integrate_step still_ext sf crowded = crowded" for sf
    by (simp add: integrate_step_def still_ext_def crowded_eq upt_small)
  have 3: "intsteps crowded = 1" "track_emergence crowded = False"
    by (simp_all add: crowded_eq)
  show ?thesis
    by (simp add: before_checks_def Let_def 1 3 substeps_def 2)
qed

lemma crowded_frame_step: "frame_step still_ext 0 crowded = Inr crowded_after"
proof -
  have "argsort still_ext = stable_argsort" by (simp add: still_ext_def)
  then show ?thesis
    by (simp add: frame_step_def crowded_before_checks crowded_set_bad_balls crowded_after_def)
qed

lemma crowded_after_fields:
  "pos crowded_after = [sentinel, (15, 14, 0), (25, 25, 0)]"
  "vel crowded_after = [(NaN, NaN, NaN), (Fin 0, Fin 0, Fin 0), (Fin 0, Fin 0, Fin 0)]"
  "balls_age crowded_after = [3, 6, 2]"
  "new_valid_balls_mask crowded_after = [False, True, True]"
  "ballpos crowded_after = [[sentinel, (15, 14, 0), (25, 25, 0)]]"
  "balls_age_t crowded_after = [[3, 6, 2]]"
  "valid_balls_mask_t crowded_after = [[False, True, True]]"
  "ballspacing crowded_after = 10" "nxc crowded_after = 4" "nyc crowded_after = 4"
  by (simp_all add: crowded_after_def flag_and_store_def Let_def crowded_eq)

lemma crowded_shapes: "shapes_ok crowded" "nt crowded = 1" "nballs_max crowded = 3" "rs crowded = 2"
  by (simp_all add: shapes_ok_def crowded_eq)


lemma still_ext_argsort: "is_argsort (argsort still_ext)"
  by (simp add: still_ext_def is_argsort_stable)











lemma stripes_eq: "stripes = \<lparr>
           rs = 2, ballspacing = 10, intsteps = 1, nt = 1,
           noise_level = 20, polarity = 1,
           track_emergence = False, verbose = False,
           image_fr = (\<lambda>r c. if c = 4 \<or> c = 25 then - 100 else 100),
           surface = (\<lambda>r c. 0), nx = 40, ny = 40,
           nxc = 4, nyc = 4,
           min_ds = 8, nballs_max = 2,
           pos = [(37 / 10, 3, 0), (51 / 2, 25, 0)],
           vel = [(Fin 0, Fin 0, Fin 0), (Fin 0, Fin 0, Fin 0)],
           balls_age = [1, 1],
           ballpos = [[(0, 0, 0), (0, 0, 0)]],
           balls_age_t = [[1, 1]],
           bad_balls_mask = [False, False],
           valid_balls_mask_t = [[True, True]],
           new_valid_balls_mask = [True, True],
           unique_valid_balls = [0, 1],
           nballs = 2, nbadballs = 0, stdout = [] \<rparr>"
  by (simp add: stripes_def MBT_init_def stripe_ext_def coarse_grid_dims_def Let_def
      upt_small replicate_small)

lemma stripes_on_frame: "on_frame_idx stripes = [0, 1]"
  by (simp add: stripes_eq on_frame_idx_def get_off_edges_mask_def nonzero_def px_def py_def upt_small)

lemma stripes_checks:
  "pos2_of stripes [0, 1] = [(3, 3, 0), (25, 25, 0)]"
  "same_polarity_mask stripes [(3, 3, 0), (25, 25, 0)] = [True, False]"
  "noise_mask stripes [(3, 3, 0), (25, 25, 0)] = [True, True]"
  "unsunk_mask stripes [(3, 3, 0), (25, 25, 0)] = [True, True]"
  by (simp_all add: stripes_eq pos2_of_def take_idx_def astype_int32_def same_polarity_mask_def
      noise_mask_def unsunk_mask_def px_def py_def pz_def)

lemma stripes_fields:
  "pos stripes = [(37 / 10, 3, 0), (51 / 2, 25, 0)]"
  "balls_age stripes = [1, 1]" "stdout stripes = []" "polarity stripes = 1"
  "image_fr stripes = (\<lambda>r c. if c = 4 \<or> c = 25 then - 100 else 100)"
  by (simp_all add: stripes_eq)

lemma stripes_cells: "coarse_grid_pos stripes [37 / 10] [3] = Inr ([0], [0], [0])"
  by (simp add: stripes_eq coarse_grid_pos_def uint32_def clip_def ravel_multi_index_def Let_def)

lemma stripes_decimation: "decimation stable_argsort [0] [1] [0] = Inr [0]"
  by (simp add: decimation_def stable_argsort_def lexsort2_def run_ends_def py_take_def
      take_idx_def Let_def upt_small)

lemma stripes_set_bad_balls:
  "set_bad_balls stable_argsort True True True stripes =
     Inr (stripes\<lparr>unique_valid_balls := [0], bad_balls_mask := [False, True],
          new_valid_balls_mask := [True, False]\<rparr>)"
  unfolding set_bad_balls_def stripes_on_frame Let_def stripes_checks
  by (simp add: logical_and_def any_true_def bool_idx_def nonzero_def take_idx_def upt_small
      replicate_small stripes_fields px_def py_def stripes_cells stripes_decimation clear_at_eq)

lemma solo_flip_init:
  "MBT_init flip_ext 2 10 1 2 20 1 (Some ([12], [12])) False False (40, 40) = Inr (solo (\<lambda>r c. 100))"
  by (simp add: solo_def MBT_init_def flip_ext_def coarse_grid_dims_def Let_def
      upt_small replicate_small)

lemma solo_neg_init:
  "MBT_init neg_ext 2 10 1 2 20 1 (Some ([12], [12])) False False (40, 40) = Inr (solo (\<lambda>r c. - 100))"
  by (simp add: solo_def MBT_init_def neg_ext_def coarse_grid_dims_def Let_def
      upt_small replicate_small)

lemma still_exts:
  "integrate_motion flip_ext = (\<lambda>s sf i. (pos s ! i, vel s ! i))"
  "integrate_motion neg_ext = (\<lambda>s sf i. (pos s ! i, vel s ! i))"
  "integrate_motion still_ext = (\<lambda>s sf i. (pos s ! i, vel s ! i))"
  "argsort flip_ext = stable_argsort" "argsort neg_ext = stable_argsort"
  "load_data flip_ext 0 = (\<lambda>r c. 100)" "load_data flip_ext (Suc 0) = (\<lambda>r c. - 100)"
  "load_data neg_ext n = (\<lambda>r c. - 100)"
  "prep_function flip_ext img = (\<lambda>r c. 0)" "prep_function neg_ext img = (\<lambda>r c. 0)"
  by (simp_all add: flip_ext_def neg_ext_def still_ext_def)

lemma solo_load:
  "load_frame neg_ext n (solo (\<lambda>r c. - 100)) = solo (\<lambda>r c. - 100)"
  "load_frame flip_ext 0 (solo (\<lambda>r c. 100)) = solo (\<lambda>r c. 100)"
  by (simp_all add: load_frame_def still_exts solo_def)

lemma solo_negative_fails:
  assumes "pos t = [(12, 12, 0)]" "rs t = 2" "nx t = 40" "ny t = 40" "polarity t = 1"
    "image_fr t = (\<lambda>r c. - 100)"
  shows "\<not> any_true (same_polarity_mask t (pos2_of t (on_frame_idx t)))"
  by (simp add: assms on_frame_idx_def get_off_edges_mask_def nonzero_def pos2_of_def take_idx_def
      same_polarity_mask_def any_true_def astype_int32_def px_def py_def pz_def upt_small)

lemma solo_set_bad_balls:
  "set_bad_balls stable_argsort True True True (solo (\<lambda>r c. 100)) =
     Inr ((solo (\<lambda>r c. 100))\<lparr>unique_valid_balls := [0], bad_balls_mask := [False],
          new_valid_balls_mask := [True]\<rparr>)"
proof -
  have 1: "on_frame_idx (solo (\<lambda>r c. 100)) = [0]"
    by (simp add: solo_def on_frame_idx_def get_off_edges_mask_def nonzero_def px_def py_def upt_small)
  have 2: "pos2_of (solo (\<lambda>r c. 100)) [0] = [(12, 12, 0)]"
    "same_polarity_mask (solo (\<lambda>r c. 100)) [(12, 12, 0)] = [True]"
    "noise_mask (solo (\<lambda>r c. 100)) [(12, 12, 0)] = [True]"
    "unsunk_mask (solo (\<lambda>r c. 100)) [(12, 12, 0)] = [True]"
    by (simp_all add: solo_def pos2_of_def take_idx_def astype_int32_def same_polarity_mask_def
      noise_mask_def unsunk_mask_def px_def py_def pz_def)
  have 3: "pos (solo (\<lambda>r c. 100)) = [(12, 12, 0)]" "balls_age (solo (\<lambda>r c. 100)) = [1]"
    by (simp_all add: solo_def)
  have 4: "coarse_grid_pos (solo (\<lambda>r c. 100)) [12] [12] = Inr ([1], [1], [5])"
    by (simp add: solo_def coarse_grid_pos_def uint32_def clip_def ravel_multi_index_def Let_def)
  have 5: "decimation stable_argsort [0] [1] [5] = Inr [0]"
    by (simp add: decimation_def stable_argsort_def lexsort2_def run_ends_def py_take_def
      take_idx_def Let_def upt_small)
  show ?thesis
    unfolding set_bad_balls_def 1 Let_def 2
    by (simp add: logical_and_def any_true_def bool_idx_def nonzero_def take_idx_def upt_small
      replicate_small 3 px_def py_def 4 5 clear_at_eq)
qed

lemma solo_fields:
  "track_emergence (solo img) = False" "verbose (solo img) = False" "stdout (solo img) = []"
  "nt (solo img) = 2"
  by (simp_all add: solo_def)

lemma flip_frame0: "frame_step flip_ext 0 (solo (\<lambda>r c. 100)) = Inr solo1"
  by (simp add: frame_step_def before_checks_still still_exts solo_fields solo_load
      solo_set_bad_balls solo1_def)

lemma solo1_fields:
  "pos solo1 = [(12, 12, 0)]" "rs solo1 = 2" "nx solo1 = 40" "ny solo1 = 40" "polarity solo1 = 1"
  "track_emergence solo1 = False" "verbose solo1 = False" "stdout solo1 = []"
  "balls_age solo1 = [2]" "new_valid_balls_mask solo1 = [True]"
  by (simp_all add: solo1_def flag_and_store_def Let_def solo_def)

lemma flip_before1:
  "before_checks flip_ext (Suc 0) solo1 = Inr (load_frame flip_ext (Suc 0) solo1)"
  by (rule before_checks_still) (simp_all add: still_exts solo1_fields)

lemma flip_fails1:
  "\<not> any_true (same_polarity_mask (load_frame flip_ext (Suc 0) solo1)
        (pos2_of (load_frame flip_ext (Suc 0) solo1) (on_frame_idx (load_frame flip_ext (Suc 0) solo1))))"
  by (rule solo_negative_fails) (simp_all add: load_frame_def Let_def solo1_fields still_exts)

lemma flip_frame1:
  "frame_step flip_ext (Suc 0) solo1 = Inl (SystemExit [Msg msg_polarity] 1)"
  by (simp add: frame_step_def flip_before1 set_bad_balls_polarity_exit[OF flip_fails1])
     (simp add: load_frame_def Let_def solo1_fields)

lemma neg_fails0:
  "\<not> any_true (same_polarity_mask (solo (\<lambda>r c. - 100))
        (pos2_of (solo (\<lambda>r c. - 100)) (on_frame_idx (solo (\<lambda>r c. - 100)))))"
  by (rule solo_negative_fails) (simp_all add: solo_def)

lemma neg_frame0:
  "frame_step neg_ext 0 (solo (\<lambda>r c. - 100)) = Inl (SystemExit [Msg msg_polarity] 1)"
  by (simp add: frame_step_def before_checks_still still_exts solo_fields solo_load
      set_bad_balls_polarity_exit[OF neg_fails0])

lemma dim_masks:
  "load_frame dim_ext 0 (solo (\<lambda>r c. 10)) = solo (\<lambda>r c. 10)"
  "before_checks dim_ext 0 (solo (\<lambda>r c. 10)) = Inr (solo (\<lambda>r c. 10))"
  "on_frame_idx (solo (\<lambda>r c. 10)) = [0]"
  "pos2_of (solo (\<lambda>r c. 10)) [0] = [(12, 12, 0)]"
  "same_polarity_mask (solo (\<lambda>r c. 10)) [(12, 12, 0)] = [True]"
  "noise_mask (solo (\<lambda>r c. 10)) [(12, 12, 0)] = [False]"
  "unsunk_mask (solo (\<lambda>r c. 10)) [(12, 12, 0)] = [True]"
proof -
  show l: "load_frame dim_ext 0 (solo (\<lambda>r c. 10)) = solo (\<lambda>r c. 10)"
    by (simp add: load_frame_def dim_ext_def solo_def)
  have "integrate_motion dim_ext = (\<lambda>s sf i. (pos s ! i, vel s ! i))" by (simp add: dim_ext_def)
  then show "before_checks dim_ext 0 (solo (\<lambda>r c. 10)) = Inr (solo (\<lambda>r c. 10))"
    using before_checks_still[of dim_ext "solo (\<lambda>r c. 10)" 0] by (simp add: solo_fields l)
  show "on_frame_idx (solo (\<lambda>r c. 10)) = [0]"
    by (simp add: solo_def on_frame_idx_def get_off_edges_mask_def nonzero_def px_def py_def upt_small)
  show "pos2_of (solo (\<lambda>r c. 10)) [0] = [(12, 12, 0)]"
    "same_polarity_mask (solo (\<lambda>r c. 10)) [(12, 12, 0)] = [True]"
    "noise_mask (solo (\<lambda>r c. 10)) [(12, 12, 0)] = [False]"
    "unsunk_mask (solo (\<lambda>r c. 10)) [(12, 12, 0)] = [True]"
    by (simp_all add: solo_def pos2_of_def take_idx_def astype_int32_def same_polarity_mask_def
      noise_mask_def unsunk_mask_def px_def py_def pz_def)
qed

lemma deep_masks:
  "before_checks deep_ext 0 (solo (\<lambda>r c. 100)) = Inr sunk"
  "on_frame_idx sunk = [0]"
  "pos2_of sunk [0] = [(12, 12, 0)]"
  "same_polarity_mask sunk [(12, 12, 0)] = [True]"
  "noise_mask sunk [(12, 12, 0)] = [True]"
  "unsunk_mask sunk [(12, 12, 0)] = [False]"
  "stdout sunk = []" "verbose sunk = False"
proof -
  have l: "load_frame deep_ext 0 (solo (\<lambda>r c. 100)) = sunk"
    by (simp add: load_frame_def deep_ext_def solo_def sunk_def)
  have "integrate_motion deep_ext = (\<lambda>s sf i. (pos s ! i, vel s ! i))" by (simp add: deep_ext_def)
  then show "before_checks deep_ext 0 (solo (\<lambda>r c. 100)) = Inr sunk"
    using before_checks_still[of deep_ext "solo (\<lambda>r c. 100)" 0] by (simp add: solo_fields l)
  show "on_frame_idx sunk = [0]"
    by (simp add: sunk_def solo_def on_frame_idx_def get_off_edges_mask_def nonzero_def px_def
        py_def upt_small)
  show "pos2_of sunk [0] = [(12, 12, 0)]"
    "same_polarity_mask sunk [(12, 12, 0)] = [True]"
    "noise_mask sunk [(12, 12, 0)] = [True]"
    "unsunk_mask sunk [(12, 12, 0)] = [False]"
    "stdout sunk = []" "verbose sunk = False"
    by (simp_all add: sunk_def solo_def pos2_of_def take_idx_def astype_int32_def
      same_polarity_mask_def noise_mask_def unsunk_mask_def px_def py_def pz_def)
qed

lemma tied_eq: "tied = \<lparr>
           rs = 2, ballspacing = 10, intsteps = 1, nt = 1,
           noise_level = 20, polarity = 1,
           track_emergence = False, verbose = False,
           image_fr = (\<lambda>r c. 100), surface = (\<lambda>r c. 0), nx = 40, ny = 40,
           nxc = 4, nyc = 4,
           min_ds = 8, nballs_max = 3,
           pos = [(12, 12, 0), (13, 12, 0), (14, 12, 0)],
           vel = [(Fin 0, Fin 0, Fin 0), (Fin 0, Fin 0, Fin 0), (Fin 0, Fin 0, Fin 0)],
           balls_age = [1, 1, 1],
           ballpos = [[(0, 0, 0), (0, 0, 0), (0, 0, 0)]],
           balls_age_t = [[1, 1, 1]],
           bad_balls_mask = [False, False, False],
           valid_balls_mask_t = [[True, True, True]],
           new_valid_balls_mask = [True, True, True],
           unique_valid_balls = [0, 1, 2],
           nballs = 3, nbadballs = 0, stdout = [] \<rparr>"
  by (simp add: tied_def MBT_init_def still_ext_def coarse_grid_dims_def Let_def
      upt_small replicate_small)

lemma tied_on_frame: "on_frame_idx tied = [0, 1, 2]"
  by (simp add: tied_eq on_frame_idx_def get_off_edges_mask_def nonzero_def px_def py_def upt_small)

lemma tied_survivors: "survivors tied = [0, 1, 2]"
  unfolding survivors_def tied_on_frame Let_def
  by (simp add: tied_eq check_defs upt_small replicate_small)

lemma tied_cells:
  "coarse_grid_pos tied [12, 13, 14] [12, 12, 12] = Inr ([1, 1, 1], [1, 1, 1], [5, 5, 5])"
  by (simp add: tied_eq coarse_grid_pos_def uint32_def clip_def ravel_multi_index_def Let_def)

lemma tied_argsorts:
  "unstable_argsort [5, 5, 5] = [0, 2, Suc 0]" "stable_argsort [5, 5, 5] = [0, Suc 0, 2]"
  by (simp_all add: unstable_argsort_def stable_argsort_def upt_small)

lemma tied_decimation:
  "decimation unstable_argsort [0, Suc 0, 2] [1, 1, 1] [5, 5, 5] = Inr [Suc 0]"
  "decimation stable_argsort [0, Suc 0, 2] [1, 1, 1] [5, 5, 5] = Inr [2]"
  unfolding decimation_def tied_argsorts
  by (simp_all add: lexsort2_def run_ends_def py_take_def take_idx_def Let_def upt_small)

lemma tied_checks:
  "pos2_of tied [0, 1, 2] = [(12, 12, 0), (13, 12, 0), (14, 12, 0)]"
  "same_polarity_mask tied [(12, 12, 0), (13, 12, 0), (14, 12, 0)] = [True, True, True]"
  "noise_mask tied [(12, 12, 0), (13, 12, 0), (14, 12, 0)] = [True, True, True]"
  "unsunk_mask tied [(12, 12, 0), (13, 12, 0), (14, 12, 0)] = [True, True, True]"
  by (simp_all add: tied_eq pos2_of_def take_idx_def astype_int32_def same_polarity_mask_def
      noise_mask_def unsunk_mask_def px_def py_def pz_def)

lemma tied_fields:
  "pos tied = [(12, 12, 0), (13, 12, 0), (14, 12, 0)]"
  "balls_age tied = [1, 1, 1]" "stdout tied = []"
  by (simp_all add: tied_eq)

lemma tied_set_bad_balls:
  "set_bad_balls unstable_argsort True True True tied =
     Inr (tied\<lparr>unique_valid_balls := [1], bad_balls_mask := [True, False, True],
          new_valid_balls_mask := [False, True, False]\<rparr>)"
  "set_bad_balls stable_argsort True True True tied =
     Inr (tied\<lparr>unique_valid_balls := [2], bad_balls_mask := [True, True, False],
          new_valid_balls_mask := [False, False, True]\<rparr>)"
  unfolding set_bad_balls_def tied_on_frame Let_def tied_checks
  by (simp_all add: logical_and_def any_true_def bool_idx_def nonzero_def take_idx_def upt_small
      replicate_small tied_fields px_def py_def tied_cells tied_decimation clear_at_eq)

lemma tied_sort_order:
  "sort_order unstable_argsort tied = [0, 2, 1]" "sort_order stable_argsort tied = [0, 1, 2]"
  unfolding sort_order_def tied_survivors
  by (simp_all add: take_idx_def tied_fields px_def py_def tied_cells tied_argsorts)





















lemma pair_init:
  "MBT_init still_ext 2 10 1 2 20 1 (Some ([12, 15], [12, 14])) False False (40, 40) = Inr pair0"
  by (simp add: pair0_def MBT_init_def still_ext_def coarse_grid_dims_def Let_def
      upt_small replicate_small)





lemma pair2_fields:
  "pos pair2 = [sentinel, (15, 14, 0)]" "new_valid_balls_mask pair2 = [False, True]"
  "valid_balls_mask_t pair2 = [[False, True], [False, True]]" "balls_age pair2 = [1, 3]"
  by (simp_all add: pair2_def pair1_def flag_and_store_def Let_def pair0_def)


subsection \<open>Decimation keeps the oldest ball of a cell (C2)\<close>

text \<open>
  C2, as amended. For every ball \<open>i\<close> that passed the off-edge, polarity, noise and sinking
  checks, the decimation keeps exactly one ball \<open>k\<close> of the coarse-grid cell of \<open>i\<close> valid:
  every other ball \<open>j\<close> of that cell is marked invalid, and none is older than \<open>k\<close>. A tie
  between balls of the maximum age is not broken by slot index: the ball kept is the one
  that \<^verbatim>\<open>np.argsort\<close> of the cell indices (line 387, default kind, which is not stable)
  puts last among them. Only when that \<^verbatim>\<open>argsort\<close> is stable is it the ball of the
  greatest slot index.
\<close>

theorem decimation_keeps_oldest_C2:
  assumes asort: "is_argsort asort"
    and sbb: "set_bad_balls asort True True True s = Inr s'"
    and i: "i \<in> set (survivors s)"
  shows "\<exists>k\<in>set (survivors s).
     cell_of s (pos s ! k) = cell_of s (pos s ! i) \<and> new_valid_balls_mask s' ! k \<and>
     (\<forall>j\<in>set (survivors s). cell_of s (pos s ! j) = cell_of s (pos s ! i) \<longrightarrow>
        (j \<noteq> k \<longrightarrow> \<not> new_valid_balls_mask s' ! j) \<and>
        balls_age s ! j \<le> balls_age s ! k \<and>
        (balls_age s ! j = balls_age s ! k \<longrightarrow>
           index_of (sort_order asort s) j \<le> index_of (sort_order asort s) k) \<and>
        (asort = stable_argsort \<longrightarrow> balls_age s ! j = balls_age s ! k \<longrightarrow> j \<le> k))"
proof -
  define vs where "vs = survivors s"
  define ages0 where "ages0 = take_idx (balls_age s) vs"
  from decimation_order_facts[OF asort sbb] obtain cp0 K where
    len: "length cp0 = length vs" and Ksub: "set K \<subseteq> {0..<length vs}"
    and K: "K = kept_pos asort ages0 cp0"
    and same: "\<And>q r. q < length vs \<Longrightarrow> r < length vs \<Longrightarrow>
        (cell_of s (pos s ! (vs ! q)) = cell_of s (pos s ! (vs ! r))) = (cp0 ! q = cp0 ! r)"
    and valid: "\<And>q. q < length vs \<Longrightarrow> new_valid_balls_mask s' ! (vs ! q) = (q \<in> set K)"
    and so: "sort_order asort s = map (\<lambda>q. vs ! q) (asort cp0)"
    unfolding vs_def ages0_def by blast
  have srt: "sorted_wrt (<) vs" using sorted_survivors[of s] by (simp add: vs_def)
  then have dist: "distinct vs" by (simp add: strict_sorted_iff)
  have age: "ages0 ! q = balls_age s ! (vs ! q)" if "q < length vs" for q
    using that by (simp add: ages0_def take_idx_def)
  have inj: "inj_on (\<lambda>q. vs ! q) {0..<length vs}"
    using dist by (auto simp: inj_on_def nth_eq_iff_index_eq)
  have idx: "index_of (sort_order asort s) (vs ! t) = index_of (asort cp0) t" if "t < length vs" for t
    unfolding so
    by (rule index_of_map, rule inj_on_subset[OF inj])
       (use that is_argsortD(4)[OF asort, of cp0] len in auto)
  from i obtain r where r: "r < length vs" "i = vs ! r"
    unfolding vs_def[symmetric] by (auto simp: in_set_conv_nth)
  have "cp0 ! r \<in> (\<lambda>q. cp0 ! q) ` set K"
    using kept_pos_cells[OF asort, of cp0 ages0] r(1) len by (simp add: K)
  then obtain q where q: "q \<in> set K" "cp0 ! q = cp0 ! r" by auto
  then have ql: "q < length vs" using Ksub by auto
  have inj: "t = q" if "t \<in> set K" "cp0 ! t = cp0 ! q" for t
    using kept_pos_distinct[where ?cp0.0 = cp0 and asort = asort and ?ages0.0 = ages0] that q(1)
    by (auto simp: K distinct_map dest: inj_onD)
  have "\<forall>j\<in>set vs. cell_of s (pos s ! j) = cell_of s (pos s ! i) \<longrightarrow>
        (j \<noteq> vs ! q \<longrightarrow> \<not> new_valid_balls_mask s' ! j) \<and>
        balls_age s ! j \<le> balls_age s ! (vs ! q) \<and>
        (balls_age s ! j = balls_age s ! (vs ! q) \<longrightarrow>
           index_of (sort_order asort s) j \<le> index_of (sort_order asort s) (vs ! q)) \<and>
        (asort = stable_argsort \<longrightarrow> balls_age s ! j = balls_age s ! (vs ! q) \<longrightarrow> j \<le> vs ! q)"
  proof (intro ballI impI)
    fix j assume j: "j \<in> set vs" and c: "cell_of s (pos s ! j) = cell_of s (pos s ! i)"
    from j obtain t where t: "t < length vs" "j = vs ! t" by (auto simp: in_set_conv_nth)
    have ct: "cp0 ! t = cp0 ! q" using c same[OF t(1) r(1)] t(2) r(2) q(2) by simp
    have 1: "j \<noteq> vs ! q \<longrightarrow> \<not> new_valid_balls_mask s' ! j"
      using valid[OF t(1)] inj[OF _ ct] t(2) by auto
    have "ages0 ! t \<le> ages0 ! q"
      using kept_pos_oldest[OF asort, of q ages0 cp0 t] q(1) t(1) ct len by (simp add: K)
    then have 2: "balls_age s ! j \<le> balls_age s ! (vs ! q)"
      using age[OF t(1)] age[OF ql] t(2) by simp
    have 3: "asort = stable_argsort \<longrightarrow> balls_age s ! j = balls_age s ! (vs ! q) \<longrightarrow> j \<le> vs ! q"
    proof (intro impI)
      assume st: "asort = stable_argsort" and eq: "balls_age s ! j = balls_age s ! (vs ! q)"
      have "t \<le> q"
        using kept_pos_stable_tie[of q ages0 cp0 t] q(1) t(1) ct len eq age[OF t(1)] age[OF ql] t(2)
        by (simp add: K st)
      then show "j \<le> vs ! q"
        using srt t ql by (cases "t = q") (auto simp: sorted_wrt_iff_nth_less less_imp_le)
    qed
    have 4: "balls_age s ! j = balls_age s ! (vs ! q) \<longrightarrow>
           index_of (sort_order asort s) j \<le> index_of (sort_order asort s) (vs ! q)"
    proof
      assume eq: "balls_age s ! j = balls_age s ! (vs ! q)"
      have "index_of (asort cp0) t \<le> index_of (asort cp0) q"
        using kept_pos_tie[OF asort, of q ages0 cp0 t] q(1) t(1) ct len eq age[OF t(1)] age[OF ql] t(2)
        by (simp add: K)
      then show "index_of (sort_order asort s) j \<le> index_of (sort_order asort s) (vs ! q)"
        using idx[OF t(1)] idx[OF ql] t(2) by simp
    qed
    show "(j \<noteq> vs ! q \<longrightarrow> \<not> new_valid_balls_mask s' ! j) \<and>
        balls_age s ! j \<le> balls_age s ! (vs ! q) \<and>
        (balls_age s ! j = balls_age s ! (vs ! q) \<longrightarrow>
           index_of (sort_order asort s) j \<le> index_of (sort_order asort s) (vs ! q)) \<and>
        (asort = stable_argsort \<longrightarrow> balls_age s ! j = balls_age s ! (vs ! q) \<longrightarrow> j \<le> vs ! q)"
      using 1 2 3 4 by blast
  qed
  moreover have "vs ! q \<in> set vs" using ql by simp
  moreover have "cell_of s (pos s ! (vs ! q)) = cell_of s (pos s ! i)"
    using same[OF ql r(1)] q(2) r(2) by simp
  moreover have "new_valid_balls_mask s' ! (vs ! q)" using valid[OF ql] q(1) by simp
  ultimately show ?thesis unfolding vs_def[symmetric] by blast
qed

theorem decimation_keeps_oldest_C2_witness:
  "is_argsort unstable_argsort \<and>
   set_bad_balls unstable_argsort True True True tied =
     Inr (tied\<lparr>unique_valid_balls := [1], bad_balls_mask := [True, False, True],
          new_valid_balls_mask := [False, True, False]\<rparr>) \<and>
   0 \<in> set (survivors tied) \<and>
   (\<exists>k\<in>set (survivors tied).
      cell_of tied (pos tied ! k) = cell_of tied (pos tied ! 0) \<and>
      [False, True, False] ! k \<and>
      (\<forall>j\<in>set (survivors tied).
         cell_of tied (pos tied ! j) = cell_of tied (pos tied ! 0) \<longrightarrow>
         (j \<noteq> k \<longrightarrow> \<not> [False, True, False] ! j) \<and>
         balls_age tied ! j \<le> balls_age tied ! k \<and>
         (balls_age tied ! j = balls_age tied ! k \<longrightarrow>
            index_of [0, 2, 1] j \<le> index_of [0, 2, 1] k)))"
  using decimation_keeps_oldest_C2[OF is_argsort_unstable tied_set_bad_balls(1), of 0]
  by (simp add: is_argsort_unstable tied_set_bad_balls tied_survivors tied_sort_order)

text \<open>
  The claim as stated breaks ties by slot index. Three balls of the same cell and age, in
  the slots 0, 1, 2: with an \<^verbatim>\<open>argsort\<close> that returns the equal keys in the order 0, 2, 1
  the ball of slot 1 is kept, with a stable one the ball of slot 2.
\<close>

theorem tie_not_by_slot_index_C2_counterexample:
  "is_argsort unstable_argsort \<and> is_argsort stable_argsort \<and>
   survivors tied = [0, 1, 2] \<and> balls_age tied = [1, 1, 1] \<and>
   coarse_grid_pos tied (map px (pos tied)) (map py (pos tied)) = Inr ([1, 1, 1], [1, 1, 1], [5, 5, 5]) \<and>
   unstable_argsort [5, 5, 5] = [0, 2, 1] \<and>
   set_bad_balls unstable_argsort True True True tied =
     Inr (tied\<lparr>unique_valid_balls := [1], bad_balls_mask := [True, False, True],
          new_valid_balls_mask := [False, True, False]\<rparr>) \<and>
   stable_argsort [5, 5, 5] = [0, 1, 2] \<and>
   set_bad_balls stable_argsort True True True tied =
     Inr (tied\<lparr>unique_valid_balls := [2], bad_balls_mask := [True, True, False],
          new_valid_balls_mask := [False, False, True]\<rparr>)"
  by (simp add: is_argsort_unstable is_argsort_stable tied_survivors tied_fields tied_cells
      tied_argsorts tied_set_bad_balls px_def py_def)

subsection \<open>At most one valid ball per cell (C1)\<close>

text \<open>
  C1. At the end of every processed frame, two distinct slots that are both valid in
  \<open>new_valid_balls_mask\<close> have different coarse-grid cells: \<open>coarse_grid_pos\<close> returns a
  cell for each of the two positions, and the two cells differ. This holds for every
  sorting permutation \<^verbatim>\<open>np.argsort\<close> may return.
\<close>

theorem decimation_invariant_C1:
  assumes asort: "is_argsort (argsort ext)"
    and step: "frame_step ext n s = Inr s'"
    and ij: "i < length (pos s')" "j < length (pos s')" "i \<noteq> j"
    and v: "new_valid_balls_mask s' ! i" "new_valid_balls_mask s' ! j"
  shows "\<exists>ci cj. cell_of s' (pos s' ! i) = Inr ci \<and> cell_of s' (pos s' ! j) = Inr cj \<and> ci \<noteq> cj"
proof -
  from frame_stepD[OF step] obtain s2 s3 where
    sbb: "set_bad_balls (argsort ext) True True True s2 = Inr s3"
    and s': "s' = flag_and_store n s3" by blast
  from set_bad_balls_kept[OF asort sbb] have p3: "pos s3 = pos s2"
    and nv: "new_valid_balls_mask s3 = map Not (bad_balls_mask s3)" by auto
  have lb: "length (bad_balls_mask s3) = length (pos s2)"
    "length (new_valid_balls_mask s3) = length (pos s2)"
    using set_bad_balls_kept[OF asort sbb] by (auto simp: length_clear_at)
  have len: "length (pos s') = length (pos s2)"
    by (simp add: s' flag_and_store_fields p3 lb)
  have v3: "new_valid_balls_mask s3 ! i" "new_valid_balls_mask s3 ! j"
    using v by (simp_all add: s' flag_and_store_fields)
  have same_pos: "pos s' ! k = pos s2 ! k" if "k < length (pos s2)" "new_valid_balls_mask s3 ! k" for k
    using that lb by (simp add: s' flag_and_store_fields p3 nv)
  have cfg: "ballspacing s3 = ballspacing s2" "nxc s3 = nxc s2" "nyc s3 = nyc s2"
    using set_bad_balls_InrD[OF sbb] by auto
  have cell: "cell_of s' p = cell_of s2 p" for p
    by (rule cell_of_cong) (simp_all add: s' flag_and_store_fields cfg)
  from set_bad_balls_distinct_cells[OF asort sbb, of i j] ij v3 len
  obtain ci cj where "cell_of s2 (pos s2 ! i) = Inr ci" "cell_of s2 (pos s2 ! j) = Inr cj" "ci \<noteq> cj"
    by auto
  then show ?thesis using same_pos[of i] same_pos[of j] ij v3 len cell by auto
qed

theorem decimation_invariant_C1_witness:
  "is_argsort (argsort still_ext) \<and> frame_step still_ext 0 crowded = Inr crowded_after \<and>
   (1::nat) < length (pos crowded_after) \<and> (2::nat) < length (pos crowded_after) \<and>
   new_valid_balls_mask crowded_after ! 1 \<and> new_valid_balls_mask crowded_after ! 2 \<and>
   (\<exists>ci cj. cell_of crowded_after (pos crowded_after ! 1) = Inr ci \<and>
            cell_of crowded_after (pos crowded_after ! 2) = Inr cj \<and> ci \<noteq> cj)"
  using decimation_invariant_C1[OF still_ext_argsort crowded_frame_step, of 1 2]
  by (simp add: still_ext_argsort crowded_frame_step crowded_after_fields)

subsection \<open>Ages (C3)\<close>

text \<open>
  C3. In a processed frame \<open>n\<close>, the age of a slot that is valid at the end of the frame
  is the age before the frame plus one, and the age of a slot that is invalid is
  unchanged; the age and the validity written to the history of frame \<open>n\<close> are these.
  The addition is that of uint32: it is the successor of the number unless the age is
  \<open>2 ^ 32 - 1\<close>.
\<close>

theorem age_monotonicity_C3:
  assumes asort: "is_argsort (argsort ext)"
    and step: "frame_step ext n s = Inr s'"
    and shp: "shapes_ok s" and n: "n < nt s" and slot: "slot < nballs_max s"
  shows "balls_age s' ! slot =
           (if new_valid_balls_mask s' ! slot then balls_age s ! slot + 1 else balls_age s ! slot) \<and>
         balls_age_t s' ! n ! slot = balls_age s' ! slot \<and>
         valid_balls_mask_t s' ! n ! slot = new_valid_balls_mask s' ! slot \<and>
         (unat (balls_age s ! slot) < 2 ^ 32 - 1 \<longrightarrow>
            unat (balls_age s' ! slot) =
              (if new_valid_balls_mask s' ! slot then unat (balls_age s ! slot) + 1
               else unat (balls_age s ! slot)))"
proof -
  from frame_step_facts[OF asort step shp] obtain s2 s3 where
    s': "s' = flag_and_store n s3"
    and age: "balls_age s3 = balls_age s"
    and lb: "length (bad_balls_mask s3) = nballs_max s"
    and nv: "new_valid_balls_mask s3 = map Not (bad_balls_mask s3)"
    and hist: "balls_age_t s3 = balls_age_t s" "valid_balls_mask_t s3 = valid_balls_mask_t s"
    by blast
  have la: "length (balls_age s) = nballs_max s" and lt: "length (balls_age_t s) = nt s"
    "length (valid_balls_mask_t s) = nt s"
    using shp by (simp_all add: shapes_ok_def)
  have 1: "balls_age s' ! slot =
           (if new_valid_balls_mask s' ! slot then balls_age s ! slot + 1 else balls_age s ! slot)"
    using slot la lb by (simp add: s' flag_and_store_fields age nv)
  have 2: "balls_age_t s' ! n ! slot = balls_age s' ! slot"
    using n lt by (simp add: s' flag_and_store_fields hist)
  have 3: "valid_balls_mask_t s' ! n ! slot = new_valid_balls_mask s' ! slot"
    using n lt by (simp add: s' flag_and_store_fields hist)
  have 4: "unat (balls_age s' ! slot) =
              (if new_valid_balls_mask s' ! slot then unat (balls_age s ! slot) + 1
               else unat (balls_age s ! slot))"
    if "unat (balls_age s ! slot) < 2 ^ 32 - 1"
  proof -
    have "unat (balls_age s ! slot + 1) = unat (balls_age s ! slot) + 1"
      using that by (simp add: unat_word_ariths)
    then show ?thesis using 1 by simp
  qed
  show ?thesis using 1 2 3 4 by blast
qed

theorem age_monotonicity_C3_witness:
  "is_argsort (argsort still_ext) \<and> frame_step still_ext 0 crowded = Inr crowded_after \<and>
   shapes_ok crowded \<and> 0 < nt crowded \<and> 1 < nballs_max crowded \<and>
   new_valid_balls_mask crowded_after ! 1 \<and>
   balls_age crowded ! 1 = 5 \<and> balls_age crowded_after ! 1 = 6 \<and>
   balls_age_t crowded_after ! 0 ! 1 = 6 \<and> valid_balls_mask_t crowded_after ! 0 ! 1"
  using age_monotonicity_C3[OF still_ext_argsort crowded_frame_step crowded_shapes(1), of 1]
  by (simp add: still_ext_argsort crowded_frame_step crowded_shapes crowded_after_fields
      crowded_fields)

subsection \<open>Sentinel positions (C4)\<close>

text \<open>
  C4. In a processed frame \<open>n\<close>, the position stored in the history for a slot is the
  sentinel \<open>(-1, -1, -1)\<close> if and only if the stored validity of the slot is false, and
  an invalid slot has the velocity \<open>(NaN, NaN, NaN)\<close> after the frame. The radius
  \<open>rs\<close> is not negative.
\<close>

theorem sentinel_consistency_C4:
  assumes asort: "is_argsort (argsort ext)"
    and step: "frame_step ext n s = Inr s'"
    and shp: "shapes_ok s" and n: "n < nt s" and slot: "slot < nballs_max s"
    and rs: "0 \<le> rs s"
  shows "(ballpos s' ! n ! slot = sentinel \<longleftrightarrow> \<not> valid_balls_mask_t s' ! n ! slot) \<and>
         (\<not> valid_balls_mask_t s' ! n ! slot \<longrightarrow> vel s' ! slot = (NaN, NaN, NaN)) \<and>
         ballpos s' ! n ! slot = pos s' ! slot"
proof -
  from frame_step_facts[OF asort step shp] obtain s2 s3 where
    sbb: "set_bad_balls (argsort ext) True True True s2 = Inr s3"
    and s': "s' = flag_and_store n s3"
    and lp: "length (pos s3) = nballs_max s" and lv: "length (vel s3) = nballs_max s"
    and p3: "pos s3 = pos s2"
    and lb: "length (bad_balls_mask s3) = nballs_max s"
    and nv: "new_valid_balls_mask s3 = map Not (bad_balls_mask s3)"
    and hist: "ballpos s3 = ballpos s" "valid_balls_mask_t s3 = valid_balls_mask_t s"
    and rs2: "rs s2 = rs s"
    by blast
  have lt: "length (ballpos s) = nt s" "length (valid_balls_mask_t s) = nt s"
    using shp by (simp_all add: shapes_ok_def)
  have hp: "ballpos s' ! n ! slot = pos s' ! slot"
    using n lt by (simp add: s' flag_and_store_fields hist)
  have hv: "valid_balls_mask_t s' ! n ! slot = (\<not> bad_balls_mask s3 ! slot)"
    using n lt slot lb by (simp add: s' flag_and_store_fields hist nv)
  have ps: "pos s' ! slot = (if bad_balls_mask s3 ! slot then sentinel else pos s3 ! slot)"
    using slot lp lb by (simp add: s' flag_and_store_fields)
  have vs: "vel s' ! slot = (if bad_balls_mask s3 ! slot then (NaN, NaN, NaN) else vel s3 ! slot)"
    using slot lv lb by (simp add: s' flag_and_store_fields)
  have ok: "pos s3 ! slot \<noteq> sentinel" if "\<not> bad_balls_mask s3 ! slot"
  proof -
    have "new_valid_balls_mask s3 ! slot" using that slot lb by (simp add: nv)
    then have "slot \<in> set (on_frame_idx s2)"
      using valid_on_frame(2)[OF asort sbb, of slot] slot lp p3 by simp
    then show ?thesis using on_frame_not_sentinel[of slot s2] rs rs2 p3 by simp
  qed
  show ?thesis using hp hv ps vs ok by auto
qed

theorem sentinel_consistency_C4_witness:
  "is_argsort (argsort still_ext) \<and> frame_step still_ext 0 crowded = Inr crowded_after \<and>
   shapes_ok crowded \<and> 0 < nt crowded \<and> 0 < nballs_max crowded \<and> 0 \<le> rs crowded \<and>
   ballpos crowded_after ! 0 ! 0 = sentinel \<and> \<not> valid_balls_mask_t crowded_after ! 0 ! 0 \<and>
   vel crowded_after ! 0 = (NaN, NaN, NaN)"
  using sentinel_consistency_C4[OF still_ext_argsort crowded_frame_step crowded_shapes(1), of 0]
  by (simp add: still_ext_argsort crowded_frame_step crowded_shapes crowded_after_fields)

subsection \<open>Emergence (C5)\<close>




subsection \<open>Interpolated surfaces (C9)\<close>




subsection \<open>The polarity check (C6)\<close>

text \<open>
  C6, as amended. A ball that passes the off-edge check, and for which the frame value
  at the pixel obtained by truncating its \<open>x\<close> and \<open>y\<close> toward zero
  (\<^verbatim>\<open>astype(np.int32)\<close>) has the sign opposite to the tracked polarity, is invalid
  after \<^verbatim>\<open>set_bad_balls\<close>.
\<close>

theorem polarity_check_C6:
  assumes asort: "is_argsort asort"
    and sbb: "set_bad_balls asort True True True s = Inr s'"
    and i: "i \<in> set (on_frame_idx s)"
    and opp: "sgn (image_fr s (astype_int32 (py (pos s ! i))) (astype_int32 (px (pos s ! i))))
                * of_int (polarity s) < 0"
  shows "\<not> new_valid_balls_mask s' ! i \<and> bad_balls_mask s' ! i"
proof -
  have il: "i < length (pos s)" using i by (rule on_frame_idx_lt)
  have "i \<notin> set (survivors s)" using survivors_checks[of i s] opp by auto
  then have "\<not> new_valid_balls_mask s' ! i"
    using valid_on_frame(1)[OF asort sbb il] by blast
  then show ?thesis using new_valid_iff(1,2)[OF asort sbb il] by simp
qed

theorem polarity_check_C6_witness:
  "is_argsort stable_argsort \<and>
   set_bad_balls stable_argsort True True True stripes =
     Inr (stripes\<lparr>unique_valid_balls := [0], bad_balls_mask := [False, True],
          new_valid_balls_mask := [True, False]\<rparr>) \<and>
   1 \<in> set (on_frame_idx stripes) \<and>
   sgn (image_fr stripes (astype_int32 (py (pos stripes ! 1))) (astype_int32 (px (pos stripes ! 1))))
      * of_int (polarity stripes) < 0 \<and>
   \<not> [True, False] ! 1 \<and> [False, True] ! 1"
  using polarity_check_C6[OF is_argsort_stable stripes_set_bad_balls, of 1]
  by (simp add: is_argsort_stable stripes_set_bad_balls stripes_on_frame stripes_fields
      astype_int32_def px_def py_def)

text \<open>
  The claim as stated reads the frame at the rounded pixel. The ball at \<open>x = 3.7\<close>,
  \<open>y = 3\<close> has the rounded pixel (3, 4), where the frame is negative, and the truncated
  pixel (3, 3), where it is positive: with polarity 1 the ball stays valid.
\<close>

theorem polarity_rounded_pixel_C6_counterexample:
  "0 \<in> set (on_frame_idx stripes) \<and>
   sgn (image_fr stripes (round (py (pos stripes ! 0))) (round (px (pos stripes ! 0))))
      * of_int (polarity stripes) < 0 \<and>
   set_bad_balls stable_argsort True True True stripes =
     Inr (stripes\<lparr>unique_valid_balls := [0], bad_balls_mask := [False, True],
          new_valid_balls_mask := [True, False]\<rparr>) \<and>
   new_valid_balls_mask (stripes\<lparr>unique_valid_balls := [0], bad_balls_mask := [False, True],
          new_valid_balls_mask := [True, False]\<rparr>) ! 0"
  by (simp add: stripes_set_bad_balls stripes_on_frame stripes_fields px_def py_def round_def)

subsection \<open>Total invalidation (C7)\<close>

text \<open>
  C7, as amended. When, in frame \<open>n\<close>, every ball that passed the off-edge check fails
  the polarity check, or every one fails the noise check, or every one fails the sinking
  check, the run stops at once: no later frame is processed and the result is the exit
  of the process with status 1, after printing the message of the first check, in the
  order polarity, noise, sinking, after which no ball is left: the polarity message when
  no ball passes the polarity check, else the noise message when no ball passes both the
  polarity and the noise check, else the sinking message. The three messages differ.
  The frame index is not in the message nor in the status: the output holds it only
  through the progress line of frame \<open>n\<close>, printed when \<open>verbose\<close> is on.
\<close>

theorem total_invalidation_C7:
  assumes run: "run_frames ext ms s = Inr s1"
    and bc: "before_checks ext n s1 = Inr s2"
    and fail: "\<not> any_true (same_polarity_mask s2 (pos2_of s2 (on_frame_idx s2))) \<or>
               \<not> any_true (noise_mask s2 (pos2_of s2 (on_frame_idx s2))) \<or>
               \<not> any_true (unsunk_mask s2 (pos2_of s2 (on_frame_idx s2)))"
  shows "run_frames ext (ms @ n # ns) s =
           Inl (SystemExit (stdout s1 @ (if verbose s1 then [Frame_n n] else []) @
             [Msg (if \<not> any_true (same_polarity_mask s2 (pos2_of s2 (on_frame_idx s2)))
                   then msg_polarity
                   else if \<not> any_true (logical_and
                                (same_polarity_mask s2 (pos2_of s2 (on_frame_idx s2)))
                                (noise_mask s2 (pos2_of s2 (on_frame_idx s2))))
                        then msg_noise else msg_sinking)]) 1) \<and>
         msg_polarity \<noteq> msg_noise \<and> msg_polarity \<noteq> msg_sinking \<and> msg_noise \<noteq> msg_sinking"
proof -
  have out: "stdout s2 = stdout s1 @ (if verbose s1 then [Frame_n n] else [])"
    by (rule before_checks_fields(16)[OF bc])
  have "frame_step ext n s1 =
      Inl (SystemExit (stdout s1 @ (if verbose s1 then [Frame_n n] else []) @
             [Msg (if \<not> any_true (same_polarity_mask s2 (pos2_of s2 (on_frame_idx s2)))
                   then msg_polarity
                   else if \<not> any_true (logical_and
                                (same_polarity_mask s2 (pos2_of s2 (on_frame_idx s2)))
                                (noise_mask s2 (pos2_of s2 (on_frame_idx s2))))
                        then msg_noise else msg_sinking)]) 1)"
    using set_bad_balls_exit_msg[OF fail, of "argsort ext"] by (simp add: frame_step_def bc out)
  then show ?thesis
    using msg_distinct by (simp add: run_frames_append run)
qed

theorem total_invalidation_C7_witness:
  "run_frames flip_ext [0] (solo (\<lambda>r c. 100)) = Inr solo1 \<and>
   before_checks flip_ext 1 solo1 = Inr (load_frame flip_ext 1 solo1) \<and>
   \<not> any_true (same_polarity_mask (load_frame flip_ext 1 solo1)
        (pos2_of (load_frame flip_ext 1 solo1) (on_frame_idx (load_frame flip_ext 1 solo1)))) \<and>
   run_frames flip_ext [0, 1] (solo (\<lambda>r c. 100)) = Inl (SystemExit [Msg msg_polarity] 1) \<and>
   before_checks dim_ext 0 (solo (\<lambda>r c. 10)) = Inr (solo (\<lambda>r c. 10)) \<and>
   any_true (same_polarity_mask (solo (\<lambda>r c. 10))
        (pos2_of (solo (\<lambda>r c. 10)) (on_frame_idx (solo (\<lambda>r c. 10))))) \<and>
   \<not> any_true (noise_mask (solo (\<lambda>r c. 10))
        (pos2_of (solo (\<lambda>r c. 10)) (on_frame_idx (solo (\<lambda>r c. 10))))) \<and>
   run_frames dim_ext [0, 1] (solo (\<lambda>r c. 10)) = Inl (SystemExit [Msg msg_noise] 1) \<and>
   before_checks deep_ext 0 (solo (\<lambda>r c. 100)) = Inr sunk \<and>
   any_true (logical_and (same_polarity_mask sunk (pos2_of sunk (on_frame_idx sunk)))
        (noise_mask sunk (pos2_of sunk (on_frame_idx sunk)))) \<and>
   \<not> any_true (unsunk_mask sunk (pos2_of sunk (on_frame_idx sunk))) \<and>
   run_frames deep_ext [0, 1] (solo (\<lambda>r c. 100)) = Inl (SystemExit [Msg msg_sinking] 1)"
proof -
  have r: "run_frames flip_ext [0] (solo (\<lambda>r c. 100)) = Inr solo1"
    by (simp add: flip_frame0)
  have f: "\<not> any_true (same_polarity_mask (load_frame flip_ext (Suc 0) solo1)
        (pos2_of (load_frame flip_ext (Suc 0) solo1) (on_frame_idx (load_frame flip_ext (Suc 0) solo1))))
     \<or> \<not> any_true (noise_mask (load_frame flip_ext (Suc 0) solo1)
        (pos2_of (load_frame flip_ext (Suc 0) solo1) (on_frame_idx (load_frame flip_ext (Suc 0) solo1))))
     \<or> \<not> any_true (unsunk_mask (load_frame flip_ext (Suc 0) solo1)
        (pos2_of (load_frame flip_ext (Suc 0) solo1) (on_frame_idx (load_frame flip_ext (Suc 0) solo1))))"
    using flip_fails1 by blast
  have r0: "run_frames ext [] t = Inr t" for ext t by simp
  have d: "any_true (same_polarity_mask (solo (\<lambda>r c. 10))
        (pos2_of (solo (\<lambda>r c. 10)) (on_frame_idx (solo (\<lambda>r c. 10)))))"
    "\<not> any_true (noise_mask (solo (\<lambda>r c. 10))
        (pos2_of (solo (\<lambda>r c. 10)) (on_frame_idx (solo (\<lambda>r c. 10)))))"
    "\<not> any_true (logical_and (same_polarity_mask (solo (\<lambda>r c. 10))
        (pos2_of (solo (\<lambda>r c. 10)) (on_frame_idx (solo (\<lambda>r c. 10)))))
        (noise_mask (solo (\<lambda>r c. 10))
        (pos2_of (solo (\<lambda>r c. 10)) (on_frame_idx (solo (\<lambda>r c. 10))))))"
    by (simp_all add: dim_masks any_true_def logical_and_def)
  have e: "any_true (same_polarity_mask sunk (pos2_of sunk (on_frame_idx sunk)))"
    "any_true (logical_and (same_polarity_mask sunk (pos2_of sunk (on_frame_idx sunk)))
        (noise_mask sunk (pos2_of sunk (on_frame_idx sunk))))"
    "\<not> any_true (unsunk_mask sunk (pos2_of sunk (on_frame_idx sunk)))"
    by (simp_all add: deep_masks any_true_def logical_and_def)
  have g: "\<not> any_true (same_polarity_mask (solo (\<lambda>r c. 10))
        (pos2_of (solo (\<lambda>r c. 10)) (on_frame_idx (solo (\<lambda>r c. 10)))))
     \<or> \<not> any_true (noise_mask (solo (\<lambda>r c. 10))
        (pos2_of (solo (\<lambda>r c. 10)) (on_frame_idx (solo (\<lambda>r c. 10)))))
     \<or> \<not> any_true (unsunk_mask (solo (\<lambda>r c. 10))
        (pos2_of (solo (\<lambda>r c. 10)) (on_frame_idx (solo (\<lambda>r c. 10)))))"
    using d(2) by blast
  have h: "\<not> any_true (same_polarity_mask sunk (pos2_of sunk (on_frame_idx sunk)))
     \<or> \<not> any_true (noise_mask sunk (pos2_of sunk (on_frame_idx sunk)))
     \<or> \<not> any_true (unsunk_mask sunk (pos2_of sunk (on_frame_idx sunk)))"
    using e(3) by blast
  show ?thesis
    using total_invalidation_C7[OF r flip_before1 f, of "[]"]
      total_invalidation_C7[OF r0 dim_masks(2) g, of "[1]"]
      total_invalidation_C7[OF r0 deep_masks(1) h, of "[1]"]
    by (simp add: flip_frame0 flip_before1 flip_fails1 d e dim_masks(2) deep_masks(1)
        solo_fields solo1_fields)
qed

text \<open>
  The claim as stated has the error report the frame index. With \<open>verbose\<close> off, a run
  that stops in frame 1 and a run that stops in frame 0 end with the same output and the
  same status.
\<close>

theorem error_without_frame_index_C7_counterexample:
  "MBT_init flip_ext 2 10 1 2 20 1 (Some ([12], [12])) False False (40, 40) = Inr (solo (\<lambda>r c. 100)) \<and>
   MBT_init neg_ext 2 10 1 2 20 1 (Some ([12], [12])) False False (40, 40) = Inr (solo (\<lambda>r c. - 100)) \<and>
   frame_step flip_ext 0 (solo (\<lambda>r c. 100)) = Inr solo1 \<and>
   frame_step flip_ext 1 solo1 = Inl (SystemExit [Msg msg_polarity] 1) \<and>
   track_all_frames flip_ext (solo (\<lambda>r c. 100)) = Inl (SystemExit [Msg msg_polarity] 1) \<and>
   frame_step neg_ext 0 (solo (\<lambda>r c. - 100)) = Inl (SystemExit [Msg msg_polarity] 1) \<and>
   track_all_frames neg_ext (solo (\<lambda>r c. - 100)) = Inl (SystemExit [Msg msg_polarity] 1)"
  using solo_flip_init solo_neg_init
  by (simp add: flip_frame0 flip_frame1 neg_frame0 track_all_frames_def solo_fields upt_small)

subsection \<open>Invalid slots stay invalid (C10)\<close>



subsection \<open>The coarse grid (C8)\<close>

text \<open>
  C8. The claim: the coarse grid has \<open>ceil(nx / ballspacing)\<close> columns and
  \<open>ceil(ny / ballspacing)\<close> rows, and a ball inside the frame has the cell
  \<open>(floor(x / ballspacing), floor(y / ballspacing))\<close>. The code computes the number of rows
  from \<open>nx\<close> as well. On a frame 10 pixels wide and 30 pixels high with a spacing of 10,
  the grid of the code has one row, and the ball at \<open>x = 5\<close>, \<open>y = 25\<close>, which lies in
  row \<open>floor(25 / 10) = 2\<close> of the three rows that cover the frame, is given row 0.
\<close>

theorem coarse_grid_rows_from_nx_C8:
  "(case MBT_init still_ext 2 10 15 1 20 1 (Some ([5], [25])) False True (30, 10) of
      Inl e \<Rightarrow> False
    | Inr s \<Rightarrow> nx s = 10 \<and> ny s = 30 \<and> nyc s = 1 \<and>
               \<lceil>real_of_int (ny s) / real_of_int (ballspacing s)\<rceil> = 3 \<and>
               \<lfloor>(25 :: real) / real_of_int (ballspacing s)\<rfloor> = 2 \<and>
               coarse_grid_pos s [5] [25] = Inr ([0], [0], [0]))"
  by (simp add: MBT_init_def still_ext_def coarse_grid_dims_def coarse_grid_pos_def
      uint32_def clip_def ravel_multi_index_def Let_def)

theorem coarse_grid_rows_from_nx_C8_witness:
  "\<exists>s. MBT_init still_ext 2 10 15 1 20 1 (Some ([5], [25])) False True (30, 10) = Inr s \<and>
       ny s = 30 \<and> nyc s = 1 \<and> coarse_grid_pos s [5] [25] = Inr ([0], [0], [0])"
  using coarse_grid_rows_from_nx_C8 by (auto split: sum.splits)

end
